theory Spec2Isabelle
  imports Main "HOL-Library.Word"
begin

unbundle bit_operations_syntax

text \<open>
  The local blockstore of vitastor: the read path of blockstore_read.cpp and the write
  path of blockstore_write.cpp over the data model of blockstore.h. Machine integers are
  words of their width, so arithmetic wraps as it does in the source. A \<open>std::map\<close> is the
  list of its nodes in key order, and an iterator a position in that list. Every function
  takes the blockstore and the operation and returns the value the source returns with
  both as the call left them, or the \<open>error\<close> the source runs into.
\<close>

section \<open>Data model (blockstore.h)\<close>

type_synonym u8 = "8 word"
type_synonym u32 = "32 word"
type_synonym u64 = "64 word"

text \<open>Dirty-entry states, operation types and wait reasons: the \<open>#define\<close>s of blockstore.h.\<close>

abbreviation ST_IN_FLIGHT :: u32 where "ST_IN_FLIGHT \<equiv> 1"
abbreviation ST_J_WRITTEN :: u32 where "ST_J_WRITTEN \<equiv> 2"
abbreviation ST_J_SYNCED :: u32 where "ST_J_SYNCED \<equiv> 3"
abbreviation ST_J_STABLE :: u32 where "ST_J_STABLE \<equiv> 4"
abbreviation ST_J_MOVED :: u32 where "ST_J_MOVED \<equiv> 5"
abbreviation ST_J_MOVE_SYNCED :: u32 where "ST_J_MOVE_SYNCED \<equiv> 6"
abbreviation ST_D_WRITTEN :: u32 where "ST_D_WRITTEN \<equiv> 16"
abbreviation ST_D_SYNCED :: u32 where "ST_D_SYNCED \<equiv> 17"
abbreviation ST_D_META_WRITTEN :: u32 where "ST_D_META_WRITTEN \<equiv> 18"
abbreviation ST_D_META_SYNCED :: u32 where "ST_D_META_SYNCED \<equiv> 19"
abbreviation ST_D_STABLE :: u32 where "ST_D_STABLE \<equiv> 20"
abbreviation ST_D_META_MOVED :: u32 where "ST_D_META_MOVED \<equiv> 21"
abbreviation ST_D_META_COMMITTED :: u32 where "ST_D_META_COMMITTED \<equiv> 22"
abbreviation ST_DEL_WRITTEN :: u32 where "ST_DEL_WRITTEN \<equiv> 23"
abbreviation ST_DEL_SYNCED :: u32 where "ST_DEL_SYNCED \<equiv> 24"
abbreviation ST_DEL_STABLE :: u32 where "ST_DEL_STABLE \<equiv> 25"
abbreviation ST_DEL_MOVED :: u32 where "ST_DEL_MOVED \<equiv> 26"
abbreviation ST_CURRENT :: u32 where "ST_CURRENT \<equiv> 32"

definition IS_STABLE :: "u32 \<Rightarrow> bool" where
  "IS_STABLE st \<longleftrightarrow>
     st = 4 \<or> st = 5 \<or> st = 6 \<or> st = 20 \<or> st = 21 \<or> st = 22 \<or> st = 32 \<or> st = 24 \<or> st = 25"

definition IS_JOURNAL :: "u32 \<Rightarrow> bool" where
  "IS_JOURNAL st \<longleftrightarrow> st \<ge> 2 \<and> st \<le> 6"

abbreviation OP_READ :: u32 where "OP_READ \<equiv> 1"
abbreviation OP_READ_DIRTY :: u32 where "OP_READ_DIRTY \<equiv> 2"
abbreviation OP_WRITE :: u32 where "OP_WRITE \<equiv> 3"
abbreviation OP_TYPE_MASK :: u32 where "OP_TYPE_MASK \<equiv> 7"

abbreviation WAIT_SQE :: int where "WAIT_SQE \<equiv> 1"
abbreviation WAIT_IN_FLIGHT :: int where "WAIT_IN_FLIGHT \<equiv> 2"
abbreviation WAIT_JOURNAL :: int where "WAIT_JOURNAL \<equiv> 3"
abbreviation WAIT_JOURNAL_BUFFER :: int where "WAIT_JOURNAL_BUFFER \<equiv> 4"

text \<open>\<open>ENOSPC\<close> of the platform's errno.h (Linux).\<close>

abbreviation ENOSPC :: int where "ENOSPC \<equiv> 28"

record object_id =
  inode :: u64
  stripe :: u64

definition oid_less :: "object_id \<Rightarrow> object_id \<Rightarrow> bool" where
  "oid_less a b \<longleftrightarrow> inode a < inode b \<or> inode a = inode b \<and> stripe a < stripe b"

record clean_entry =
  ce_version :: u64
  ce_state :: u32
  ce_location :: u64

record obj_ver_id =
  ov_oid :: object_id
  ov_version :: u64

definition obj_ver_less :: "obj_ver_id \<Rightarrow> obj_ver_id \<Rightarrow> bool" where
  "obj_ver_less a b \<longleftrightarrow>
     oid_less (ov_oid a) (ov_oid b) \<or> ov_oid a = ov_oid b \<and> ov_version a < ov_version b"

record dirty_entry =
  de_state :: u32
  de_flags :: u32
  de_location :: u64
  de_offset :: u32
  de_size :: u32

text \<open>
  A buffer address: a byte offset from the start of the operation's \<open>buf\<close>, or from the
  start of the journal's in-memory sector buffers. Pointer arithmetic is arithmetic on
  the offset.
\<close>

datatype buf_ref = Op_buf int | Sector_buf int

record iovec =
  iov_base :: buf_ref
  iov_len :: u64

text \<open>
  \<open>struct blockstore_operation\<close>. \<open>op_self\<close> is the address of the operation (the source
  passes operations by pointer and stores the pointer in ring data and in
  \<open>in_process_ops\<close>); \<open>op_callback_calls\<close> counts the invocations of \<open>callback\<close>.
  \<open>read_vec\<close>, a \<open>std::map<uint64_t, iovec>\<close>, is the list of its nodes in key order.
\<close>

record blockstore_operation =
  op_self :: nat
  op_callback_calls :: nat
  op_flags :: u32
  op_oid :: object_id
  op_version :: u64
  op_offset :: u32
  op_len :: u32
  op_buf :: "u8 list"
  op_retval :: int
  op_read_vec :: "(u64 \<times> iovec) list"
  op_pending_ops :: int
  op_wait_for :: int
  op_wait_detail :: u64
  op_used_journal_sector :: u64

section \<open>Collaborators whose sources are not part of the repository snapshot\<close>

text \<open>
  Modelled from the spec: the kernel submission ring behind \<open>ringloop->get_sqe\<close>,
  \<open>io_uring_prep_readv/writev\<close> and \<open>ringloop->submit\<close> (ringloop.h and liburing are
  missing). The ring has \<open>sq_entries\<close> slots; \<open>sqes\<close> lists the slots handed out so far,
  so \<open>sq.sqe_tail\<close> is its length; a slot is \<open>None\<close> until a request is prepared in it;
  \<open>sq_head\<close> counts the slots the kernel has consumed.
\<close>

datatype sqe_opcode = Readv | Writev

record sqe =
  sq_opcode :: sqe_opcode
  sq_fd :: int
  sq_iov :: iovec
  sq_off :: u64
  sq_op :: nat

record io_ring =
  sq_entries :: nat
  sq_head :: nat
  sqes :: "sqe option list"

definition sqe_tail :: "io_ring \<Rightarrow> nat" where
  "sqe_tail r = length (sqes r)"

definition ring_get_sqe :: "io_ring \<Rightarrow> (nat \<times> io_ring) option" where
  "ring_get_sqe r =
     (if length (sqes r) - sq_head r < sq_entries r
      then Some (length (sqes r), r\<lparr>sqes := sqes r @ [None]\<rparr>)
      else None)"

definition ring_prep :: "io_ring \<Rightarrow> nat \<Rightarrow> sqe \<Rightarrow> io_ring" where
  "ring_prep r i s = r\<lparr>sqes := (sqes r)[i := Some s]\<rparr>"

definition ring_set_tail :: "io_ring \<Rightarrow> nat \<Rightarrow> io_ring" where
  "ring_set_tail r n = r\<lparr>sqes := take n (sqes r)\<rparr>"

definition ring_submit :: "io_ring \<Rightarrow> io_ring" where
  "ring_submit r = r\<lparr>sq_head := length (sqes r)\<rparr>"

text \<open>
  Modelled from the spec: the bitmap allocator over data-region blocks (allocator.h is
  missing). One bit per block, set when the block is allocated;
  \<open>allocator_find_free\<close> returns the index of a free block, or \<open>(uint64_t)-1\<close> when
  none is free.
\<close>

type_synonym allocator = "bool list"

fun first_free :: "bool list \<Rightarrow> nat option" where
  "first_free [] = None"
| "first_free (b # bs) =
     (if \<not> b then Some 0 else (case first_free bs of None \<Rightarrow> None | Some i \<Rightarrow> Some (Suc i)))"

definition allocator_find_free :: "allocator \<Rightarrow> u64" where
  "allocator_find_free a = (case first_free a of None \<Rightarrow> - 1 | Some i \<Rightarrow> of_nat i)"

definition allocator_set :: "allocator \<Rightarrow> u64 \<Rightarrow> bool \<Rightarrow> allocator" where
  "allocator_set a loc v = a[unat loc := v]"

text \<open>
  The journal (blockstore_journal.h is missing; the fields are those the write path
  uses). \<open>sector_info\<close> and \<open>sector_buf\<close> are raw arrays without a length:
  \<open>sector_info\<close> is a map from the index, \<open>sector_buf\<close> a map from the byte offset at
  which a journal entry starts to that entry.
\<close>

record journal_entry_small_write =
  crc32 :: u32
  magic :: u32
  je_type :: u32
  je_size :: u32
  crc32_prev :: u32
  je_oid :: object_id
  je_version :: u64
  je_offset :: u32
  je_len :: u32

record journal_sector_info =
  si_offset :: u64
  si_usage_count :: u64

record journal_t =
  j_fd :: int
  j_offset :: u64
  j_len :: u64
  j_next_free :: u64
  j_used_start :: u64
  j_crc32_last :: u32
  j_sector_buf :: "nat \<Rightarrow> journal_entry_small_write option"
  j_sector_info :: "nat \<Rightarrow> journal_sector_info"
  j_sector_count :: u64
  j_cur_sector :: u64
  j_in_sector_pos :: u64

text \<open>
  \<open>class blockstore\<close>: the members the read and write paths use. \<open>object_db\<close> is a hash
  map, \<open>dirty_db\<close> a \<open>std::map\<close>: the list of its nodes in key order.
\<close>

record blockstore =
  object_db :: "object_id \<Rightarrow> clean_entry option"
  dirty_db :: "(obj_ver_id \<times> dirty_entry) list"
  in_process_ops :: "nat set"
  block_order :: u32
  block_size :: u32
  data_alloc :: allocator
  data_fd :: int
  data_offset :: u64
  journal :: journal_t
  ring :: io_ring

text \<open>
  What the source does outside defined behaviour, or by throwing: decrementing
  \<open>begin()\<close>, dereferencing \<open>end()\<close>, a remainder by zero, a shift by the width or more,
  \<open>memset\<close> outside the buffer, and the \<open>std::runtime_error\<close> of a failed submit.
\<close>

datatype error =
    Iterator_decrement_begin
  | Iterator_deref_end
  | Division_by_zero
  | Shift_out_of_range
  | Buffer_overrun
  | Runtime_error int

section \<open>std::map on the list of nodes\<close>

fun upper_bound :: "obj_ver_id \<Rightarrow> (obj_ver_id \<times> dirty_entry) list \<Rightarrow> nat" where
  "upper_bound k [] = 0"
| "upper_bound k (n # ns) = (if obj_ver_less k (fst n) then 0 else Suc (upper_bound k ns))"

fun map_find :: "obj_ver_id \<Rightarrow> (obj_ver_id \<times> dirty_entry) list \<Rightarrow> nat option" where
  "map_find k [] = None"
| "map_find k (n # ns) =
     (if \<not> obj_ver_less k (fst n) \<and> \<not> obj_ver_less (fst n) k then Some 0
      else (case map_find k ns of None \<Rightarrow> None | Some i \<Rightarrow> Some (Suc i)))"

fun lower_bound :: "u64 \<Rightarrow> (u64 \<times> iovec) list \<Rightarrow> nat" where
  "lower_bound k [] = 0"
| "lower_bound k (n # ns) = (if fst n < k then Suc (lower_bound k ns) else 0)"

text \<open>\<open>m[k] = v\<close>: a new node in key order, or the value of the node with that key replaced.\<close>

fun map_assign :: "u64 \<Rightarrow> iovec \<Rightarrow> (u64 \<times> iovec) list \<Rightarrow> (u64 \<times> iovec) list" where
  "map_assign k v [] = [(k, v)]"
| "map_assign k v (n # ns) =
     (if k < fst n then (k, v) # n # ns
      else if fst n < k then n # map_assign k v ns
      else (fst n, v) # ns)"

text \<open>
  \<open>memset(buf + at, 0, n)\<close> on a buffer of known length: \<open>None\<close> when the range leaves
  the buffer.
\<close>

definition memset_zero :: "u8 list \<Rightarrow> int \<Rightarrow> nat \<Rightarrow> u8 list option" where
  "memset_zero b at n =
     (if 0 \<le> at \<and> nat at + n \<le> length b
      then Some (take (nat at) b @ replicate n 0 @ drop (nat at + n) b)
      else None)"

section \<open>Read path (blockstore_read.cpp)\<close>

text \<open>
  Every function returns what the source returns together with the blockstore and the
  operation as the call left them, or an \<open>error\<close>. \<open>fulfill_read_push\<close> is lines 3 to 43.
\<close>

definition fulfill_read_push ::
  "blockstore \<Rightarrow> blockstore_operation \<Rightarrow> u32 \<Rightarrow> u32 \<Rightarrow> u64 \<Rightarrow> u64 \<Rightarrow> u32 \<Rightarrow> u32
   \<Rightarrow> error + (int \<times> blockstore \<times> blockstore_operation)" where
  "fulfill_read_push bs read_op item_start item_state item_version item_location cur_start cur_end =
     (if cur_end > cur_start then
        if item_state = ST_IN_FLIGHT then
          Inr (- 1, bs, read_op\<lparr>op_wait_for := WAIT_IN_FLIGHT, op_wait_detail := item_version\<rparr>)
        else if item_state = ST_DEL_WRITTEN \<or> item_state = ST_DEL_SYNCED \<or> item_state = ST_DEL_MOVED then
          (case memset_zero (op_buf read_op)
                  (int (unat cur_start) - int (unat (op_offset read_op))) (unat (cur_end - cur_start)) of
             None \<Rightarrow> Inl Buffer_overrun
           | Some b \<Rightarrow> Inr (0, bs, read_op\<lparr>op_buf := b\<rparr>))
        else
          (case ring_get_sqe (ring bs) of
             None \<Rightarrow> Inr (- 1, bs, read_op\<lparr>op_wait_for := WAIT_SQE\<rparr>)
           | Some (i, r) \<Rightarrow>
               let iov = \<lparr>iov_base = Op_buf (int (unat cur_start) - int (unat (op_offset read_op))),
                          iov_len = ucast (cur_end - cur_start)\<rparr>;
                   rq = \<lparr>sq_opcode = Readv,
                         sq_fd = (if IS_JOURNAL item_state then j_fd (journal bs) else data_fd bs),
                         sq_iov = iov,
                         sq_off = (if IS_JOURNAL item_state then j_offset (journal bs) else data_offset bs)
                                    + item_location + ucast cur_start - ucast item_start,
                         sq_op = op_self read_op\<rparr>
               in Inr (0, bs\<lparr>ring := ring_prep r i rq\<rparr>,
                       read_op\<lparr>op_read_vec := map_assign (ucast cur_start) iov (op_read_vec read_op)\<rparr>))
      else Inr (0, bs, read_op))"

text \<open>
  The \<open>while\<close> loop of \<open>fulfill_read\<close> over the nodes of \<open>read_vec\<close> from \<open>fulfill_near\<close>
  to \<open>end()\<close>. Every node \<open>fulfill_read_push\<close> inserts has a key below
  \<open>fulfill_near->first\<close>, so it lands before the iterator and the nodes still to visit
  are those found when the loop started. Returns the \<open>cur_start\<close> the loop ends with.
\<close>

fun fulfill_read_gaps ::
  "blockstore \<Rightarrow> blockstore_operation \<Rightarrow> u32 \<Rightarrow> u32 \<Rightarrow> u32 \<Rightarrow> u64 \<Rightarrow> u64 \<Rightarrow> u32
   \<Rightarrow> (u64 \<times> iovec) list \<Rightarrow> error + (int \<times> blockstore \<times> blockstore_operation \<times> u32)" where
  "fulfill_read_gaps bs read_op item_start item_end item_state item_version item_location cur_start [] =
     Inr (0, bs, read_op, cur_start)"
| "fulfill_read_gaps bs read_op item_start item_end item_state item_version item_location cur_start
     (n # ns) =
     (if fst n < ucast item_end then
        (case fulfill_read_push bs read_op item_start item_state item_version item_location
                cur_start (ucast (fst n)) of
           Inl e \<Rightarrow> Inl e
         | Inr (r, bs', op') \<Rightarrow>
             if r < 0 then Inr (- 1, bs', op', cur_start)
             else fulfill_read_gaps bs' op' item_start item_end item_state item_version item_location
                    (ucast (fst n + iov_len (snd n))) ns)
      else Inr (0, bs, read_op, cur_start))"

text \<open>
  \<open>fulfill_read\<close>, lines 45 to 77. \<open>fulfill_near\<close> is the position of the iterator in
  the list of nodes; \<open>item_end0\<close> is the parameter \<open>item_end\<close> before it is clamped.
\<close>

definition fulfill_read ::
  "blockstore \<Rightarrow> blockstore_operation \<Rightarrow> u32 \<Rightarrow> u32 \<Rightarrow> u32 \<Rightarrow> u64 \<Rightarrow> u64
   \<Rightarrow> error + (int \<times> blockstore \<times> blockstore_operation)" where
  "fulfill_read bs read_op item_start item_end0 item_state item_version item_location =
     (if item_start < op_offset read_op + op_len read_op \<and> item_end0 > op_offset read_op then
        let cur_start = (if item_start < op_offset read_op then op_offset read_op else item_start);
            item_end = (if item_end0 > op_offset read_op + op_len read_op
                        then op_offset read_op + op_len read_op else item_end0);
            rv = op_read_vec read_op;
            lb = lower_bound (ucast cur_start) rv;
            fulfill_near =
              (if lb \<noteq> 0 then
                 (if fst (rv ! (lb - 1)) + iov_len (snd (rv ! (lb - 1))) \<le> ucast cur_start
                  then lb else lb - 1)
               else lb)
        in (case fulfill_read_gaps bs read_op item_start item_end item_state item_version
                   item_location cur_start (drop fulfill_near rv) of
              Inl e \<Rightarrow> Inl e
            | Inr (r, bs', op', cur_start') \<Rightarrow>
                if r < 0 then Inr (- 1, bs', op')
                else (case fulfill_read_push bs' op' item_start item_state item_version
                              item_location cur_start' item_end of
                        Inl e \<Rightarrow> Inl e
                      | Inr (r', bs'', op'') \<Rightarrow>
                          if r' < 0 then Inr (- 1, bs'', op'') else Inr (0, bs'', op'')))
      else Inr (0, bs, read_op))"

text \<open>
  The \<open>while (dirty_it->first.oid == read_op->oid)\<close> loop of \<open>dequeue_read\<close>, lines 101 to
  116. Its argument
  lists the nodes \<open>dirty_it\<close> visits by successive decrements, the current node first;
  the empty list is the decrement of \<open>begin()\<close>. The flag of the result is \<open>False\<close>
  when a \<open>fulfill_read\<close> asked to wait (\<open>dequeue_read\<close> then returns 0 from inside the
  loop) and \<open>True\<close> when the loop ran to its end.
\<close>

fun dirty_walk ::
  "nat \<Rightarrow> blockstore \<Rightarrow> blockstore_operation \<Rightarrow> (obj_ver_id \<times> dirty_entry) list
   \<Rightarrow> error + (bool \<times> blockstore \<times> blockstore_operation)" where
  "dirty_walk prev_sqe_pos bs read_op [] = Inl Iterator_decrement_begin"
| "dirty_walk prev_sqe_pos bs read_op (n # ns) =
     (if ov_oid (fst n) = op_oid read_op then
        if (op_flags read_op AND OP_TYPE_MASK) = OP_READ_DIRTY \<or> IS_STABLE (de_state (snd n)) then
          (case fulfill_read bs read_op (de_offset (snd n)) (de_offset (snd n) + de_size (snd n))
                  (de_state (snd n)) (ov_version (fst n)) (de_location (snd n)) of
             Inl e \<Rightarrow> Inl e
           | Inr (r, bs', op') \<Rightarrow>
               if r < 0 then
                 Inr (False, bs'\<lparr>ring := ring_set_tail (ring bs') prev_sqe_pos\<rparr>,
                      op'\<lparr>op_read_vec := []\<rparr>)
               else dirty_walk prev_sqe_pos bs' op' ns)
        else dirty_walk prev_sqe_pos bs read_op ns
      else Inr (True, bs, read_op))"

text \<open>
  The rest of \<open>dequeue_read\<close>: the zero fill with the inline callback (lines 91 to 95 and
  130 to 134), the submission (lines 128 to 144) and the clean entry (lines 118 to 127).
  \<open>submit_ret\<close> is what \<open>ringloop->submit()\<close> returns.
\<close>

definition read_zeroes ::
  "blockstore \<Rightarrow> blockstore_operation \<Rightarrow> error + (int \<times> blockstore \<times> blockstore_operation)" where
  "read_zeroes bs read_op =
     (case memset_zero (op_buf read_op) 0 (unat (op_len read_op)) of
        None \<Rightarrow> Inl Buffer_overrun
      | Some b \<Rightarrow>
          Inr (1, bs, read_op\<lparr>op_buf := b, op_retval := sint (op_len read_op),
                               op_callback_calls := Suc (op_callback_calls read_op)\<rparr>))"

definition dequeue_read_finish ::
  "int \<Rightarrow> blockstore \<Rightarrow> blockstore_operation
   \<Rightarrow> error + (int \<times> blockstore \<times> blockstore_operation)" where
  "dequeue_read_finish submit_ret bs read_op =
     (if length (op_read_vec read_op) = 0 then read_zeroes bs read_op
      else if submit_ret < 0 then Inl (Runtime_error submit_ret)
      else Inr (1, bs\<lparr>in_process_ops := insert (op_self read_op) (in_process_ops bs),
                     ring := ring_submit (ring bs)\<rparr>,
                read_op\<lparr>op_retval := 0,
                        op_pending_ops := sint (word_of_nat (length (op_read_vec read_op)) :: u32)\<rparr>))"

definition dequeue_read_clean ::
  "int \<Rightarrow> nat \<Rightarrow> blockstore \<Rightarrow> blockstore_operation
   \<Rightarrow> error + (int \<times> blockstore \<times> blockstore_operation)" where
  "dequeue_read_clean submit_ret prev_sqe_pos bs read_op =
     (case object_db bs (op_oid read_op) of
        None \<Rightarrow> dequeue_read_finish submit_ret bs read_op
      | Some clean \<Rightarrow>
          (case fulfill_read bs read_op 0 (block_size bs) ST_CURRENT 0 (ce_location clean) of
             Inl e \<Rightarrow> Inl e
           | Inr (r, bs', op') \<Rightarrow>
               if r < 0 then
                 Inr (0, bs'\<lparr>ring := ring_set_tail (ring bs') prev_sqe_pos\<rparr>,
                      op'\<lparr>op_read_vec := []\<rparr>)
               else dequeue_read_finish submit_ret bs' op'))"

text \<open>
  \<open>dequeue_read\<close>, lines 79 to 145. The list scrutinised first holds the nodes below
  \<open>upper_bound\<close>, nearest first: what \<open>dirty_it--\<close> reaches, one node per decrement.
\<close>

definition dequeue_read ::
  "int \<Rightarrow> blockstore \<Rightarrow> blockstore_operation
   \<Rightarrow> error + (int \<times> blockstore \<times> blockstore_operation)" where
  "dequeue_read submit_ret bs read_op =
     (case rev (take (upper_bound \<lparr>ov_oid = op_oid read_op, ov_version = - 1\<rparr> (dirty_db bs))
                  (dirty_db bs)) of
        [] \<Rightarrow> Inl Iterator_decrement_begin
      | n # ns \<Rightarrow>
          let clean_found = (object_db bs (op_oid read_op) \<noteq> None);
              dirty_found = (ov_oid (fst n) = op_oid read_op)
          in if \<not> clean_found \<and> \<not> dirty_found then read_zeroes bs read_op
             else if dirty_found then
               (case dirty_walk (sqe_tail (ring bs)) bs read_op (n # ns) of
                  Inl e \<Rightarrow> Inl e
                | Inr (go_on, bs', op') \<Rightarrow>
                    if go_on then dequeue_read_clean submit_ret (sqe_tail (ring bs)) bs' op'
                    else Inr (0, bs', op'))
             else dequeue_read_clean submit_ret (sqe_tail (ring bs)) bs read_op)"

section \<open>Write path (blockstore_write.cpp)\<close>

text \<open>
  Declarations the write path uses and the snapshot lacks, taken as parameters:
  \<open>sizeof(struct journal_entry_small_write)\<close>, \<open>JOURNAL_MAGIC\<close>, \<open>JE_SMALL_WRITE\<close>
  and \<open>je_crc32\<close> of blockstore_journal.h, and the states \<open>ST_D_SUBMITTED\<close> and
  \<open>ST_J_SUBMITTED\<close>.
\<close>

record journal_decls =
  sizeof_je_small_write :: u64
  JOURNAL_MAGIC :: u32
  JE_SMALL_WRITE :: u32
  je_crc32 :: "journal_entry_small_write \<Rightarrow> u32"
  ST_D_SUBMITTED :: u32
  ST_J_SUBMITTED :: u32

text \<open>
  Modelled from the spec: the macro \<open>BS_GET_SQE(sqe, data)\<close>, which no file of the
  snapshot defines. It takes a slot of the submission ring; when the ring is full the
  operation is parked with \<open>wait_for = WAIT_SQE\<close> and \<open>dequeue_write\<close> returns 0.
  \<open>None\<close> is that early return.
\<close>

definition BS_GET_SQE :: "blockstore \<Rightarrow> (nat \<times> blockstore) option" where
  "BS_GET_SQE bs =
     (case ring_get_sqe (ring bs) of None \<Rightarrow> None | Some (i, r) \<Rightarrow> Some (i, bs\<lparr>ring := r\<rparr>))"

definition bs_prep :: "blockstore \<Rightarrow> nat \<Rightarrow> sqe \<Rightarrow> blockstore" where
  "bs_prep bs i rq = bs\<lparr>ring := ring_prep (ring bs) i rq\<rparr>"

text \<open>\<open>dirty_it->second.location = loc; dirty_it->second.state = st\<close>; \<open>None\<close> is \<open>end()\<close>.\<close>

definition dirty_set ::
  "nat option \<Rightarrow> u64 \<Rightarrow> u32 \<Rightarrow> (obj_ver_id \<times> dirty_entry) list
   \<Rightarrow> error + (obj_ver_id \<times> dirty_entry) list" where
  "dirty_set dirty_it loc st db =
     (case dirty_it of
        None \<Rightarrow> Inl Iterator_deref_end
      | Some i \<Rightarrow>
          Inr (db[i := (fst (db ! i), (snd (db ! i))\<lparr>de_location := loc, de_state := st\<rparr>)]))"

text \<open>The big (redirect) write: lines 12 to 31.\<close>

definition dequeue_write_big ::
  "journal_decls \<Rightarrow> blockstore \<Rightarrow> blockstore_operation \<Rightarrow> nat option
   \<Rightarrow> error + (int \<times> blockstore \<times> blockstore_operation)" where
  "dequeue_write_big c bs op dirty_it =
     (let loc = allocator_find_free (data_alloc bs) in
      if loc = - 1 then
        Inr (1, bs, op\<lparr>op_retval := - ENOSPC, op_callback_calls := Suc (op_callback_calls op)\<rparr>)
      else
        (case BS_GET_SQE bs of
           None \<Rightarrow> Inr (0, bs, op\<lparr>op_wait_for := WAIT_SQE\<rparr>)
         | Some (sqe, bs1) \<Rightarrow>
             if unat (block_order bs1) \<ge> 64 then Inl Shift_out_of_range
             else
               (case dirty_set dirty_it (push_bit (unat (block_order bs1)) loc) (ST_D_SUBMITTED c)
                       (dirty_db bs1) of
                  Inl e \<Rightarrow> Inl e
                | Inr db \<Rightarrow>
                    Inr (1,
                      bs_prep
                        (bs1\<lparr>dirty_db := db, data_alloc := allocator_set (data_alloc bs1) loc True\<rparr>)
                        sqe
                        \<lparr>sq_opcode = Writev, sq_fd = data_fd bs1,
                         sq_iov = \<lparr>iov_base = Op_buf 0, iov_len = ucast (op_len op)\<rparr>,
                         sq_off = data_offset bs1 + push_bit (unat (block_order bs1)) loc,
                         sq_op = op_self op\<rparr>,
                      op\<lparr>op_pending_ops := 1, op_used_journal_sector := 0\<rparr>))))"

text \<open>
  \<open>512 - journal.in_sector_pos < sizeof(struct journal_entry_small_write)\<close>: the entry
  does not fit into the current sector.
\<close>

definition sector_full :: "journal_decls \<Rightarrow> journal_t \<Rightarrow> bool" where
  "sector_full c j \<longleftrightarrow> 512 - j_in_sector_pos j < sizeof_je_small_write c"

text \<open>The space check's \<open>next_pos\<close>: lines 38 to 45 and line 57.\<close>

definition next_pos_sector :: "journal_decls \<Rightarrow> journal_t \<Rightarrow> u64" where
  "next_pos_sector c j =
     (if sector_full c j
      then (if j_next_free j + 512 \<ge> j_len j then 512 else j_next_free j + 512)
      else j_next_free j)"

definition next_pos_end :: "journal_decls \<Rightarrow> journal_t \<Rightarrow> u32 \<Rightarrow> u64" where
  "next_pos_end c j n =
     (if j_len j - next_pos_sector c j < ucast n then 512 else next_pos_sector c j) + ucast n"

text \<open>Moving to the next journal sector: lines 72 to 78.\<close>

definition next_sector :: "journal_t \<Rightarrow> u64" where
  "next_sector j = (j_cur_sector j + 1) mod j_sector_count j"

definition advance_sector :: "journal_t \<Rightarrow> journal_t" where
  "advance_sector j =
     (let cur = next_sector j in
      j\<lparr>j_cur_sector := cur,
        j_sector_info := (j_sector_info j)(unat cur := (j_sector_info j (unat cur))\<lparr>si_offset := j_next_free j\<rparr>),
        j_in_sector_pos := 0,
        j_next_free := (if j_next_free j + 512 \<ge> j_len j then j_next_free j + 512 else 512),
        j_sector_buf := (\<lambda>a. if unat (512 * cur) \<le> a \<and> a < unat (512 * cur) + 512 then None
                             else j_sector_buf j a)\<rparr>)"

text \<open>The journal entry of a small write: lines 80 to 94.\<close>

definition small_write_entry ::
  "journal_decls \<Rightarrow> journal_t \<Rightarrow> blockstore_operation \<Rightarrow> journal_entry_small_write" where
  "small_write_entry c j op =
     (let je = \<lparr>crc32 = 0, magic = JOURNAL_MAGIC c, je_type = JE_SMALL_WRITE c,
                je_size = ucast (sizeof_je_small_write c), crc32_prev = j_crc32_last j,
                je_oid = op_oid op, je_version = op_version op, je_offset = op_offset op,
                je_len = op_len op\<rparr>
      in je\<lparr>crc32 := je_crc32 c je\<rparr>)"

text \<open>The address of the entry in \<open>sector_buf\<close>: \<open>512*cur_sector + in_sector_pos\<close>.\<close>

definition entry_pos :: "journal_t \<Rightarrow> nat" where
  "entry_pos j = unat (512 * j_cur_sector j + j_in_sector_pos j)"

text \<open>The small (journaled) write once both SQEs are taken: lines 69 to 117.\<close>

definition small_write_submit ::
  "journal_decls \<Rightarrow> blockstore \<Rightarrow> blockstore_operation \<Rightarrow> nat option \<Rightarrow> nat \<Rightarrow> nat
   \<Rightarrow> error + (int \<times> blockstore \<times> blockstore_operation)" where
  "small_write_submit c bs op dirty_it sqe1 sqe2 =
     (let j0 = journal bs;
          j1 = (if sector_full c j0 then advance_sector j0 else j0);
          je = small_write_entry c j1 op;
          j2 = j1\<lparr>j_sector_buf := (j_sector_buf j1)(entry_pos j1 \<mapsto> je)\<rparr>;
          rq1 = \<lparr>sq_opcode = Writev, sq_fd = j_fd j2,
                 sq_iov = \<lparr>iov_base = Sector_buf (int (unat (512 * j_cur_sector j2))), iov_len = 512\<rparr>,
                 sq_off = j_offset j2 + si_offset (j_sector_info j2 (unat (j_cur_sector j2))),
                 sq_op = op_self op\<rparr>;
          j3 = (if j_len j2 - j_next_free j2 < ucast (op_len op) then j2\<lparr>j_next_free := 512\<rparr> else j2);
          rq2 = \<lparr>sq_opcode = Writev, sq_fd = j_fd j3,
                 sq_iov = \<lparr>iov_base = Op_buf 0, iov_len = ucast (op_len op)\<rparr>,
                 sq_off = j_offset j3 + j_next_free j3,
                 sq_op = op_self op\<rparr>
      in case dirty_set dirty_it (j_next_free j3) (ST_J_SUBMITTED c) (dirty_db bs) of
           Inl e \<Rightarrow> Inl e
         | Inr db \<Rightarrow>
             let j4 = j3\<lparr>j_next_free := j_next_free j3 + ucast (op_len op)\<rparr>;
                 j5 = (if j_next_free j4 \<ge> j_len j4 then j4\<lparr>j_next_free := 512\<rparr> else j4);
                 cur = unat (j_cur_sector j5);
                 j6 = j5\<lparr>j_sector_info := (j_sector_info j5)
                            (cur := (j_sector_info j5 cur)
                               \<lparr>si_usage_count := si_usage_count (j_sector_info j5 cur) + 1\<rparr>),
                        j_crc32_last := crc32 je\<rparr>
             in Inr (1,
                  bs_prep (bs_prep (bs\<lparr>dirty_db := db, journal := j6\<rparr>) sqe1 rq1) sqe2 rq2,
                  op\<lparr>op_pending_ops := 2, op_used_journal_sector := 1 + j_cur_sector j6\<rparr>))"

text \<open>The small write: lines 35 to 68, then \<open>small_write_submit\<close>.\<close>

definition dequeue_write_small ::
  "journal_decls \<Rightarrow> blockstore \<Rightarrow> blockstore_operation \<Rightarrow> nat option
   \<Rightarrow> error + (int \<times> blockstore \<times> blockstore_operation)" where
  "dequeue_write_small c bs op dirty_it =
     (let j = journal bs in
      if sector_full c j \<and> j_sector_count j = 0 then Inl Division_by_zero
      else if sector_full c j \<and> si_usage_count (j_sector_info j (unat (next_sector j))) > 0 then
        Inr (0, bs, op\<lparr>op_wait_for := WAIT_JOURNAL_BUFFER\<rparr>)
      else if next_pos_end c j (op_len op) \<ge> j_used_start j then
        Inr (0, bs, op\<lparr>op_wait_for := WAIT_JOURNAL, op_wait_detail := next_pos_end c j (op_len op)\<rparr>)
      else
        (case BS_GET_SQE bs of
           None \<Rightarrow> Inr (0, bs, op\<lparr>op_wait_for := WAIT_SQE\<rparr>)
         | Some (sqe1, bs1) \<Rightarrow>
             (case BS_GET_SQE bs1 of
                None \<Rightarrow> Inr (0, bs1, op\<lparr>op_wait_for := WAIT_SQE\<rparr>)
              | Some (sqe2, bs2) \<Rightarrow> small_write_submit c bs2 op dirty_it sqe1 sqe2)))"

definition dequeue_write ::
  "journal_decls \<Rightarrow> blockstore \<Rightarrow> blockstore_operation
   \<Rightarrow> error + (int \<times> blockstore \<times> blockstore_operation)" where
  "dequeue_write c bs op =
     (let dirty_it = map_find \<lparr>ov_oid = op_oid op, ov_version = op_version op\<rparr> (dirty_db bs) in
      if op_len op = block_size bs then dequeue_write_big c bs op dirty_it
      else dequeue_write_small c bs op dirty_it)"

section \<open>Notions the properties are stated with\<close>

text \<open>A \<open>std::map\<close> keeps its nodes in strictly ascending key order.\<close>

definition sorted_dirty :: "(obj_ver_id \<times> dirty_entry) list \<Rightarrow> bool" where
  "sorted_dirty db \<longleftrightarrow> sorted_wrt obj_ver_less (map fst db)"

text \<open>
  The journal entry at the journal's write position. After a small write was submitted it
  is the entry that write appended.
\<close>

definition appended_entry :: "blockstore \<Rightarrow> journal_entry_small_write option" where
  "appended_entry bs = j_sector_buf (journal bs) (entry_pos (journal bs))"

text \<open>
  A run of \<open>dequeue_write\<close> calls, one per operation of the list and in its order, each
  on the state the previous call left. The result lists the journal entries appended by
  the calls that submitted a small write, in the order of the calls.
\<close>

fun dispatch_writes ::
  "journal_decls \<Rightarrow> blockstore \<Rightarrow> blockstore_operation list
   \<Rightarrow> error + (journal_entry_small_write list \<times> blockstore)" where
  "dispatch_writes c bs [] = Inr ([], bs)"
| "dispatch_writes c bs (op # ops) =
     (case dequeue_write c bs op of
        Inl e \<Rightarrow> Inl e
      | Inr (r, bs', op') \<Rightarrow>
          (case dispatch_writes c bs' ops of
             Inl e \<Rightarrow> Inl e
           | Inr (es, bs'') \<Rightarrow>
               Inr ((if r = 1 \<and> op_len op \<noteq> block_size bs
                     then (case appended_entry bs' of None \<Rightarrow> [] | Some je \<Rightarrow> [je])
                     else []) @ es, bs'')))"

text \<open>
  A chain of entries from the checksum \<open>crc_first\<close> to the checksum \<open>crc_last\<close>: every entry
  carries the checksum of the one before it in \<open>crc32_prev\<close>, and its own \<open>crc32\<close> is
  \<open>je_crc32\<close> of the entry as it was when the checksum was taken (\<open>crc32\<close> still 0).
\<close>

fun crc_chained ::
  "journal_decls \<Rightarrow> u32 \<Rightarrow> journal_entry_small_write list \<Rightarrow> u32 \<Rightarrow> bool" where
  "crc_chained c crc_first [] crc_last \<longleftrightarrow> crc_last = crc_first"
| "crc_chained c crc_first (e # es) crc_last \<longleftrightarrow>
     crc32_prev e = crc_first \<and> crc32 e = je_crc32 c (e\<lparr>crc32 := 0\<rparr>)
     \<and> crc_chained c (crc32 e) es crc_last"

text \<open>
  Following the spec's words (\<open>JOURNAL\<close>: needs \<open>wait_detail\<close> bytes of free journal
  space): the journal bytes a small write needs, its payload and, when the entry does not
  fit into the current sector, one more sector.
\<close>

definition spec_journal_bytes_needed :: "journal_decls \<Rightarrow> journal_t \<Rightarrow> u32 \<Rightarrow> u64" where
  "spec_journal_bytes_needed c j n = (if sector_full c j then 512 else 0) + ucast n"

text \<open>
  A node of the dirty index is the newest version of an object: it belongs to the object
  and no node of the object has a higher version.
\<close>

definition newest_dirty ::
  "(obj_ver_id \<times> dirty_entry) list \<Rightarrow> object_id \<Rightarrow> obj_ver_id \<times> dirty_entry \<Rightarrow> bool" where
  "newest_dirty db oid n \<longleftrightarrow>
     n \<in> set db \<and> ov_oid (fst n) = oid
     \<and> (\<forall>m \<in> set db. ov_oid (fst m) = oid \<longrightarrow> ov_version (fst m) \<le> ov_version (fst n))"

text \<open>
  The byte range of a dirty version and the range an operation asks for intersect;
  neither range is empty, neither leaves 32 bits.
\<close>

definition overlaps_request :: "dirty_entry \<Rightarrow> blockstore_operation \<Rightarrow> bool" where
  "overlaps_request d op \<longleftrightarrow>
     unat (de_offset d) + unat (de_size d) < 2 ^ 32
     \<and> unat (op_offset op) + unat (op_len op) < 2 ^ 32
     \<and> 0 < unat (de_size d) \<and> 0 < unat (op_len op)
     \<and> unat (de_offset d) < unat (op_offset op) + unat (op_len op)
     \<and> unat (op_offset op) < unat (de_offset d) + unat (de_size d)"

section \<open>Concrete states\<close>

definition ex_decls :: journal_decls where
  "ex_decls = \<lparr>sizeof_je_small_write = 56, JOURNAL_MAGIC = 0x4A33, JE_SMALL_WRITE = 1,
     je_crc32 = (\<lambda>e. crc32_prev e + je_len e + 1), ST_D_SUBMITTED = 33, ST_J_SUBMITTED = 34\<rparr>"

definition ex_ring :: io_ring where
  "ex_ring = \<lparr>sq_entries = 8, sq_head = 0, sqes = []\<rparr>"

definition ex_journal :: journal_t where
  "ex_journal = \<lparr>j_fd = 5, j_offset = 0, j_len = 1048576, j_next_free = 512, j_used_start = 512,
     j_crc32_last = 0, j_sector_buf = (\<lambda>a. None),
     j_sector_info = (\<lambda>i. \<lparr>si_offset = 0, si_usage_count = 0\<rparr>),
     j_sector_count = 32, j_cur_sector = 0, j_in_sector_pos = 0\<rparr>"

text \<open>A store without any object: both indices empty, two free data blocks.\<close>

definition ex_store :: blockstore where
  "ex_store = \<lparr>object_db = (\<lambda>k. None), dirty_db = [], in_process_ops = {}, block_order = 17,
     block_size = 131072, data_alloc = [False, False], data_fd = 4, data_offset = 0,
     journal = ex_journal, ring = ex_ring\<rparr>"

definition ex_oid0 :: object_id where "ex_oid0 = \<lparr>inode = 0, stripe = 0\<rparr>"
definition ex_oid1 :: object_id where "ex_oid1 = \<lparr>inode = 1, stripe = 0\<rparr>"
definition ex_oid2 :: object_id where "ex_oid2 = \<lparr>inode = 2, stripe = 0\<rparr>"

text \<open>A \<open>READ\<close> of the first 512 bytes of object \<open>(1, 0)\<close> into a buffer of \<open>0xAA\<close>.\<close>

definition ex_read :: blockstore_operation where
  "ex_read = \<lparr>op_self = 7, op_callback_calls = 0, op_flags = OP_READ, op_oid = ex_oid1,
     op_version = 0, op_offset = 0, op_len = 512, op_buf = replicate 512 170, op_retval = 0,
     op_read_vec = [], op_pending_ops = 0, op_wait_for = 0, op_wait_detail = 0,
     op_used_journal_sector = 0\<rparr>"

text \<open>A written version of object \<open>(0, 0)\<close>: the node before those of object \<open>(1, 0)\<close>.\<close>

definition ex_other :: "obj_ver_id \<times> dirty_entry" where
  "ex_other = (\<lparr>ov_oid = ex_oid0, ov_version = 1\<rparr>,
     \<lparr>de_state = ST_J_WRITTEN, de_flags = 0, de_location = 512, de_offset = 0, de_size = 512\<rparr>)"

text \<open>A written version of object \<open>(2, 0)\<close>: a node after those of object \<open>(1, 0)\<close>.\<close>

definition ex_above :: "obj_ver_id \<times> dirty_entry" where
  "ex_above = (\<lparr>ov_oid = ex_oid2, ov_version = 1\<rparr>,
     \<lparr>de_state = ST_J_WRITTEN, de_flags = 0, de_location = 8192, de_offset = 0, de_size = 512\<rparr>)"

text \<open>
  Object \<open>(1, 0)\<close>: version 1 stable in the journal at 4096, covering bytes 0 to 511,
  and version 2 a synced deletion of the whole block.
\<close>

definition ex_dirty_deleted :: "(obj_ver_id \<times> dirty_entry) list" where
  "ex_dirty_deleted = [ex_other,
     (\<lparr>ov_oid = ex_oid1, ov_version = 1\<rparr>,
      \<lparr>de_state = ST_J_STABLE, de_flags = 0, de_location = 4096, de_offset = 0, de_size = 512\<rparr>),
     (\<lparr>ov_oid = ex_oid1, ov_version = 2\<rparr>,
      \<lparr>de_state = ST_DEL_SYNCED, de_flags = 0, de_location = 0, de_offset = 0, de_size = 131072\<rparr>)]"

text \<open>A big write of object \<open>(1, 0)\<close>, version 3, and a store whose data blocks are all taken.\<close>

definition ex_write_big :: blockstore_operation where
  "ex_write_big = \<lparr>op_self = 9, op_callback_calls = 0, op_flags = OP_WRITE, op_oid = ex_oid1,
     op_version = 3, op_offset = 0, op_len = 131072, op_buf = replicate 131072 17, op_retval = 0,
     op_read_vec = [], op_pending_ops = 0, op_wait_for = 0, op_wait_detail = 0,
     op_used_journal_sector = 0\<rparr>"

definition ex_store_full :: blockstore where
  "ex_store_full = ex_store\<lparr>data_alloc := [True, True],
     dirty_db := [(\<lparr>ov_oid = ex_oid1, ov_version = 3\<rparr>,
       \<lparr>de_state = ST_IN_FLIGHT, de_flags = 0, de_location = 0, de_offset = 0, de_size = 131072\<rparr>)]\<rparr>"

text \<open>The same read as \<open>READ_DIRTY\<close>.\<close>

definition ex_read_dirty :: blockstore_operation where
  "ex_read_dirty = ex_read\<lparr>op_flags := OP_READ_DIRTY\<rparr>"

text \<open>
  Object \<open>(1, 0)\<close> with version 1 stable in the journal at 4096, covering bytes 0 to
  511, and the same with a version 2 in flight over the same bytes.
\<close>

definition ex_dirty_stable :: "(obj_ver_id \<times> dirty_entry) list" where
  "ex_dirty_stable = [ex_other,
     (\<lparr>ov_oid = ex_oid1, ov_version = 1\<rparr>,
      \<lparr>de_state = ST_J_STABLE, de_flags = 0, de_location = 4096, de_offset = 0, de_size = 512\<rparr>)]"

definition ex_in_flight :: "obj_ver_id \<times> dirty_entry" where
  "ex_in_flight = (\<lparr>ov_oid = ex_oid1, ov_version = 2\<rparr>,
      \<lparr>de_state = ST_IN_FLIGHT, de_flags = 0, de_location = 0, de_offset = 0, de_size = 512\<rparr>)"

definition ex_store_stable :: blockstore where
  "ex_store_stable = ex_store\<lparr>dirty_db := ex_dirty_stable\<rparr>"

definition ex_store_in_flight :: blockstore where
  "ex_store_in_flight = ex_store\<lparr>dirty_db := ex_dirty_stable @ [ex_in_flight]\<rparr>"

text \<open>
  Small writes of 512 bytes, versions 3 and 4 of object \<open>(1, 0)\<close>, with their dirty
  entries in flight, and journals of 1 MiB in several positions.
\<close>

definition ex_write_small :: blockstore_operation where
  "ex_write_small = \<lparr>op_self = 11, op_callback_calls = 0, op_flags = OP_WRITE, op_oid = ex_oid1,
     op_version = 3, op_offset = 0, op_len = 512, op_buf = replicate 512 34, op_retval = 0,
     op_read_vec = [], op_pending_ops = 0, op_wait_for = 0, op_wait_detail = 0,
     op_used_journal_sector = 0\<rparr>"

definition ex_dirty_writes :: "(obj_ver_id \<times> dirty_entry) list" where
  "ex_dirty_writes = [ex_other,
     (\<lparr>ov_oid = ex_oid1, ov_version = 3\<rparr>,
      \<lparr>de_state = ST_IN_FLIGHT, de_flags = 0, de_location = 0, de_offset = 0, de_size = 512\<rparr>),
     (\<lparr>ov_oid = ex_oid1, ov_version = 4\<rparr>,
      \<lparr>de_state = ST_IN_FLIGHT, de_flags = 0, de_location = 0, de_offset = 0, de_size = 512\<rparr>)]"

text \<open>Room in the journal, the entry fits into the current sector.\<close>

definition ex_store_room :: blockstore where
  "ex_store_room = ex_store\<lparr>dirty_db := ex_dirty_writes,
     journal := ex_journal\<lparr>j_next_free := 1024, j_used_start := 524288\<rparr>\<rparr>"

text \<open>Room in the journal, the current sector is full, \<open>next_free\<close> far from the end.\<close>

definition ex_store_mid :: blockstore where
  "ex_store_mid = ex_store\<lparr>dirty_db := ex_dirty_writes,
     journal := ex_journal\<lparr>j_next_free := 1024, j_used_start := 524288, j_in_sector_pos := 500\<rparr>\<rparr>"

text \<open>The current sector is full and \<open>next_free\<close> is the last sector of the journal.\<close>

definition ex_journal_end :: journal_t where
  "ex_journal_end =
     ex_journal\<lparr>j_next_free := 1048064, j_used_start := 524288, j_in_sector_pos := 500\<rparr>"

text \<open>
  The current sector is full, the next sector buffer is still in use, and one sector
  is left before \<open>used_start\<close>.
\<close>

definition ex_store_busy :: blockstore where
  "ex_store_busy = ex_store\<lparr>dirty_db := ex_dirty_writes,
     journal := ex_journal\<lparr>j_next_free := 1024, j_used_start := 1536, j_in_sector_pos := 500,
       j_sector_info := (\<lambda>i. \<lparr>si_offset = 0, si_usage_count = (if i = 1 then 1 else 0)\<rparr>)\<rparr>\<rparr>"

text \<open>512 bytes are left before \<open>used_start\<close>, and a small write of 1024 bytes.\<close>

definition ex_write_1k :: blockstore_operation where
  "ex_write_1k = ex_write_small\<lparr>op_len := 1024, op_buf := replicate 1024 34\<rparr>"

definition ex_store_journal_full :: blockstore where
  "ex_store_journal_full = ex_store\<lparr>dirty_db := ex_dirty_writes,
     journal := ex_journal\<lparr>j_next_free := 4096, j_used_start := 4608\<rparr>\<rparr>"

text \<open>
  A journal whose used region wraps: it runs from \<open>used_start = 1048064\<close> to the end and
  from 512 to \<open>next_free = 1047552\<close>, so 512 bytes are free; and a small write of 2048
  bytes.
\<close>

definition ex_write_2k :: blockstore_operation where
  "ex_write_2k = ex_write_small\<lparr>op_len := 2048, op_buf := replicate 2048 34\<rparr>"

definition ex_store_wrapped :: blockstore where
  "ex_store_wrapped = ex_store\<lparr>dirty_db := ex_dirty_writes,
     journal := ex_journal\<lparr>j_next_free := 1047552, j_used_start := 1048064\<rparr>\<rparr>"

text \<open>The two journal entries the writes of versions 3 and 4 append to \<open>ex_store_room\<close>.\<close>

definition ex_entry3 :: journal_entry_small_write where
  "ex_entry3 = \<lparr>crc32 = 513, magic = 0x4A33, je_type = 1, je_size = 56, crc32_prev = 0,
     je_oid = ex_oid1, je_version = 3, je_offset = 0, je_len = 512\<rparr>"

definition ex_entry4 :: journal_entry_small_write where
  "ex_entry4 = \<lparr>crc32 = 1026, magic = 0x4A33, je_type = 1, je_size = 56, crc32_prev = 513,
     je_oid = ex_oid1, je_version = 4, je_offset = 0, je_len = 512\<rparr>"

section \<open>Unfolding the model\<close>

lemmas read_defs = dequeue_read_def obj_ver_less_def oid_less_def fulfill_read_def
  fulfill_read_push_def IS_STABLE_def IS_JOURNAL_def memset_zero_def ring_get_sqe_def
  ring_prep_def sqe_tail_def dequeue_read_clean_def ring_set_tail_def
  dequeue_read_finish_def ring_submit_def Let_def

lemmas write_defs = dequeue_write_def dequeue_write_small_def dequeue_write_big_def
  small_write_submit_def BS_GET_SQE_def bs_prep_def dirty_set_def sector_full_def
  next_pos_sector_def next_pos_end_def next_sector_def advance_sector_def small_write_entry_def
  entry_pos_def ring_get_sqe_def ring_prep_def obj_ver_less_def oid_less_def Let_def

section \<open>The big write without a free data block\<close>

lemma first_free_None: "first_free a = None \<longleftrightarrow> False \<notin> set a"
  by (induction a) (auto split: option.splits)

lemma allocator_full: "False \<notin> set a \<Longrightarrow> allocator_find_free a = - 1"
  using first_free_None [of a] by (simp add: allocator_find_free_def)

text \<open>
  C5. A big write (\<open>len == block_size\<close>) dispatched when the allocator has no free block
  fails with the no-space error: \<open>dequeue_write\<close> returns 1, \<open>retval\<close> is \<open>-ENOSPC\<close>, the
  callback has been invoked once, and the submission ring holds what it held before.
\<close>

theorem big_write_no_space:
  assumes "op_len op = block_size bs" and "False \<notin> set (data_alloc bs)"
  shows "\<exists>bs' op'. dequeue_write c bs op = Inr (1, bs', op')
           \<and> op_retval op' = - ENOSPC
           \<and> op_callback_calls op' = Suc (op_callback_calls op)
           \<and> ring bs' = ring bs"
  using assms by (simp add: dequeue_write_def dequeue_write_big_def allocator_full)

theorem big_write_no_space_witness:
  "op_len ex_write_big = block_size ex_store_full \<and> False \<notin> set (data_alloc ex_store_full)
   \<and> (\<exists>bs' op'. dequeue_write ex_decls ex_store_full ex_write_big = Inr (1, bs', op')
           \<and> op_retval op' = - ENOSPC
           \<and> op_callback_calls op' = Suc (op_callback_calls ex_write_big)
           \<and> ring bs' = ring ex_store_full)"
proof -
  note ex_simps = ex_write_big_def ex_store_full_def ex_store_def
  have len: "op_len ex_write_big = block_size ex_store_full"
    by (simp add: ex_simps)
  have full: "False \<notin> set (data_alloc ex_store_full)"
    by (simp add: ex_simps)
  show ?thesis
    using len full big_write_no_space [OF len full, of ex_decls] by simp
qed

text \<open>
  C10. When a big write fails for lack of space (\<open>allocator_find_free\<close> answers
  \<open>(uint64_t)-1\<close>), the blockstore is left as it was: the same allocator bitmap, the same
  dirty entries, the same journal, the same ring. Of the operation only \<open>retval\<close> changes,
  and its callback has run.
\<close>

theorem no_space_atomic:
  assumes "op_len op = block_size bs" and "allocator_find_free (data_alloc bs) = - 1"
  shows "dequeue_write c bs op =
           Inr (1, bs, op\<lparr>op_retval := - ENOSPC, op_callback_calls := Suc (op_callback_calls op)\<rparr>)"
  using assms by (simp add: dequeue_write_def dequeue_write_big_def)

theorem no_space_atomic_witness:
  "op_len ex_write_big = block_size ex_store_full
   \<and> allocator_find_free (data_alloc ex_store_full) = - 1
   \<and> dequeue_write ex_decls ex_store_full ex_write_big =
         Inr (1, ex_store_full, ex_write_big\<lparr>op_retval := - ENOSPC, op_callback_calls := Suc 0\<rparr>)"
proof -
  note ex_simps = ex_write_big_def ex_store_full_def ex_store_def
  have len: "op_len ex_write_big = block_size ex_store_full"
    by (simp add: ex_simps)
  have full: "allocator_find_free (data_alloc ex_store_full) = - 1"
    by (simp add: ex_simps allocator_find_free_def)
  have "op_callback_calls ex_write_big = 0"
    by (simp add: ex_write_big_def)
  then show ?thesis
    using len full no_space_atomic [OF len full, of ex_decls] by simp
qed

section \<open>The dirty-index lookup of a read\<close>

text \<open>
  The same decrement ends the walk over the versions of an object: a \<open>READ\<close> of the
  object with the lowest id in the dirty index, here its only object, decrements
  \<open>begin()\<close> after the last version was handled.
\<close>

lemma read_lowest_object_undefined:
  "dequeue_read 1 (ex_store\<lparr>dirty_db := tl ex_dirty_stable\<rparr>) ex_read = Inl Iterator_decrement_begin"
  by (simp add: ex_ring_def ex_journal_def ex_store_def ex_oid0_def ex_oid1_def ex_read_def
      ex_other_def ex_dirty_stable_def read_defs)

text \<open>
  C9. The lookup is not defined for every state. On an empty dirty index
  \<open>upper_bound\<close> answers \<open>begin()\<close>, and \<open>dequeue_read\<close> decrements it whatever the
  operation and the rest of the state are; the same happens on an index that holds only
  keys above \<open>(oid, UINT64_MAX)\<close>, here a version of object \<open>(2, 0)\<close> for a read of
  object \<open>(1, 0)\<close>.
\<close>

theorem dirty_lookup_empty_undefined:
  "dequeue_read submit_ret (bs\<lparr>dirty_db := []\<rparr>) read_op = Inl Iterator_decrement_begin
   \<and> dequeue_read 1 (ex_store\<lparr>dirty_db := [ex_above]\<rparr>) ex_read = Inl Iterator_decrement_begin"
  by (simp add: dequeue_read_def ex_ring_def ex_journal_def ex_store_def ex_oid1_def ex_oid2_def
      ex_read_def ex_above_def obj_ver_less_def oid_less_def)

text \<open>
  Where the lookup is defined, that is where the dirty index has a node at or below
  \<open>(oid, UINT64_MAX)\<close>, the read of an object with no clean and no dirty entry fills the
  buffer with zeroes, sets \<open>retval = len\<close>, runs the callback and returns 1, without
  touching the state.
\<close>

lemma upper_bound_le: "upper_bound k db \<le> length db"
  by (induction db) auto

lemma read_unallocated_zeroes:
  assumes clean: "object_db bs (op_oid op) = None"
    and dirty: "\<forall>n \<in> set (dirty_db bs). ov_oid (fst n) \<noteq> op_oid op"
    and defined: "upper_bound \<lparr>ov_oid = op_oid op, ov_version = - 1\<rparr> (dirty_db bs) \<noteq> 0"
    and buf: "unat (op_len op) \<le> length (op_buf op)"
  shows "dequeue_read s bs op =
           Inr (1, bs, op\<lparr>op_buf := replicate (unat (op_len op)) 0 @ drop (unat (op_len op)) (op_buf op),
                            op_retval := sint (op_len op),
                            op_callback_calls := Suc (op_callback_calls op)\<rparr>)"
proof -
  let ?ub = "upper_bound \<lparr>ov_oid = op_oid op, ov_version = - 1\<rparr> (dirty_db bs)"
  from defined upper_bound_le [of _ "dirty_db bs"]
  have "rev (take ?ub (dirty_db bs)) \<noteq> []" by auto
  then obtain n ns where look: "rev (take ?ub (dirty_db bs)) = n # ns"
    by (cases "rev (take ?ub (dirty_db bs))") auto
  then have "n \<in> set (take ?ub (dirty_db bs))"
    by (metis list.set_intros(1) set_rev)
  then have "n \<in> set (dirty_db bs)" by (rule in_set_takeD)
  with dirty have other: "ov_oid (fst n) \<noteq> op_oid op" by simp
  show ?thesis
    using clean other buf
    by (simp add: dequeue_read_def look Let_def read_zeroes_def memset_zero_def)
qed

lemma map_assign_not_Nil: "map_assign k v m \<noteq> []"
  by (cases m) auto

lemma fulfill_read_push_io:
  assumes "fulfill_read_push bs op a st v l cs ce = Inr (r, bs', op')"
  shows "op_len op' = op_len op \<and> op_callback_calls op' = op_callback_calls op
         \<and> (op_read_vec op' = [] \<longrightarrow> ring bs' = ring bs \<and> op_read_vec op = [])"
  using assms
  by (auto simp: fulfill_read_push_def Let_def map_assign_not_Nil split: if_splits option.splits)

lemma fulfill_read_gaps_io:
  assumes "fulfill_read_gaps bs op a e st v l cs ns = Inr (r, bs', op', cs')"
  shows "op_len op' = op_len op \<and> op_callback_calls op' = op_callback_calls op
         \<and> (op_read_vec op' = [] \<longrightarrow> ring bs' = ring bs \<and> op_read_vec op = [])"
  using assms
proof (induction ns arbitrary: bs op cs)
  case Nil
  then show ?case by simp
next
  case (Cons n ns)
  show ?case
  proof (cases "fst n < ucast e")
    case False
    with Cons.prems show ?thesis by simp
  next
    case True
    show ?thesis
    proof (cases "fulfill_read_push bs op a st v l cs (ucast (fst n))")
      case (Inl x)
      with True Cons.prems show ?thesis by simp
    next
      case (Inr res)
      obtain r1 bs1 op1 where res: "res = (r1, bs1, op1)" by (cases res) auto
      have w1: "op_len op1 = op_len op \<and> op_callback_calls op1 = op_callback_calls op
         \<and> (op_read_vec op1 = [] \<longrightarrow> ring bs1 = ring bs \<and> op_read_vec op = [])"
        using Inr res fulfill_read_push_io by blast
      show ?thesis
      proof (cases "r1 < 0")
        case neg: True
        with True Inr res Cons.prems w1 show ?thesis by simp
      next
        case nonneg: False
        with True Inr res Cons.prems
        have "fulfill_read_gaps bs1 op1 a e st v l (ucast (fst n + iov_len (snd n))) ns
                = Inr (r, bs', op', cs')" by simp
        then have "op_len op' = op_len op1 \<and> op_callback_calls op' = op_callback_calls op1
         \<and> (op_read_vec op' = [] \<longrightarrow> ring bs' = ring bs1 \<and> op_read_vec op1 = [])"
          by (rule Cons.IH)
        with w1 show ?thesis by auto
      qed
    qed
  qed
qed

lemma fulfill_read_io:
  assumes "fulfill_read bs op a e st v l = Inr (r, bs', op')"
  shows "op_len op' = op_len op \<and> op_callback_calls op' = op_callback_calls op
         \<and> (op_read_vec op' = [] \<longrightarrow> ring bs' = ring bs \<and> op_read_vec op = [])"
  using assms
  by (auto simp: fulfill_read_def Let_def split: if_splits sum.splits
      dest!: fulfill_read_gaps_io fulfill_read_push_io)

lemma dirty_walk_io:
  assumes "dirty_walk p bs op ns = Inr (True, bs', op')"
  shows "op_len op' = op_len op \<and> op_callback_calls op' = op_callback_calls op
         \<and> (op_read_vec op' = [] \<longrightarrow> ring bs' = ring bs \<and> op_read_vec op = [])"
  using assms
proof (induction ns arbitrary: bs op)
  case Nil
  then show ?case by simp
next
  case (Cons n ns)
  show ?case
  proof (cases "ov_oid (fst n) = op_oid op
      \<and> ((op_flags op AND OP_TYPE_MASK) = OP_READ_DIRTY \<or> IS_STABLE (de_state (snd n)))")
    case False
    with Cons.prems Cons.IH [of bs op] show ?thesis by (auto split: if_splits)
  next
    case use: True
    show ?thesis
    proof (cases "fulfill_read bs op (de_offset (snd n)) (de_offset (snd n) + de_size (snd n))
                    (de_state (snd n)) (ov_version (fst n)) (de_location (snd n))")
      case (Inl x)
      with use Cons.prems show ?thesis by auto
    next
      case (Inr res)
      obtain r1 bs1 op1 where res: "res = (r1, bs1, op1)" by (cases res) auto
      have w1: "op_len op1 = op_len op \<and> op_callback_calls op1 = op_callback_calls op
         \<and> (op_read_vec op1 = [] \<longrightarrow> ring bs1 = ring bs \<and> op_read_vec op = [])"
        using Inr res fulfill_read_io by blast
      from use Inr res Cons.prems have "\<not> r1 < 0" and "dirty_walk p bs1 op1 ns = Inr (True, bs', op')"
        by (auto split: if_splits)
      then have "op_len op' = op_len op1 \<and> op_callback_calls op' = op_callback_calls op1
         \<and> (op_read_vec op' = [] \<longrightarrow> ring bs' = ring bs1 \<and> op_read_vec op1 = [])"
        using Cons.IH by blast
      with w1 show ?thesis by auto
    qed
  qed
qed

lemma read_zeroes_result:
  assumes "read_zeroes bs op = Inr (r, bs', op')"
  shows "r = 1 \<and> bs' = bs \<and> op_retval op' = sint (op_len op)
    \<and> op_callback_calls op' = Suc (op_callback_calls op)
    \<and> take (unat (op_len op)) (op_buf op') = replicate (unat (op_len op)) 0"
  using assms by (auto simp: read_zeroes_def memset_zero_def split: option.splits if_splits)

lemma dequeue_read_finish_io:
  assumes "dequeue_read_finish s bs op = Inr (r, bs', op')" and "op_read_vec op' = []"
  shows "op_read_vec op = [] \<and> read_zeroes bs op = Inr (r, bs', op')"
  using assms by (auto simp: dequeue_read_finish_def read_zeroes_def split: if_splits option.splits)

lemma dequeue_read_clean_io:
  assumes "dequeue_read_clean s p bs op = Inr (1, bs', op')" and "op_read_vec op' = []"
  shows "ring bs' = ring bs \<and> op_retval op' = sint (op_len op)
    \<and> op_callback_calls op' = Suc (op_callback_calls op)
    \<and> take (unat (op_len op)) (op_buf op') = replicate (unat (op_len op)) 0"
  using assms
  by (auto simp: dequeue_read_clean_def split: option.splits sum.splits if_splits
      dest!: dequeue_read_finish_io read_zeroes_result fulfill_read_io)

text \<open>
  A read that ran to its end without a node in \<open>read_vec\<close>: nothing was added to the
  ring, the first \<open>len\<close> bytes of the buffer are zero, \<open>retval\<close> is \<open>len\<close> and the callback
  has run.
\<close>

lemma read_without_io_zeroes:
  assumes "dequeue_read s bs op = Inr (1, bs', op')" and "op_read_vec op' = []"
  shows "ring bs' = ring bs \<and> op_retval op' = sint (op_len op)
    \<and> op_callback_calls op' = Suc (op_callback_calls op)
    \<and> take (unat (op_len op)) (op_buf op') = replicate (unat (op_len op)) 0"
proof (cases "rev (take (upper_bound \<lparr>ov_oid = op_oid op, ov_version = - 1\<rparr> (dirty_db bs)) (dirty_db bs))")
  case Nil
  with assms(1) show ?thesis by (simp add: dequeue_read_def)
next
  case (Cons n ns)
  show ?thesis
  proof (cases "object_db bs (op_oid op) = None \<and> ov_oid (fst n) \<noteq> op_oid op")
    case True
    with assms(1) Cons have "read_zeroes bs op = Inr (1, bs', op')"
      by (simp add: dequeue_read_def Let_def)
    from read_zeroes_result [OF this] show ?thesis by simp
  next
    case False
    show ?thesis
    proof (cases "ov_oid (fst n) = op_oid op")
      case other: False
      with False assms(1) Cons
      have "dequeue_read_clean s (sqe_tail (ring bs)) bs op = Inr (1, bs', op')"
        by (auto simp: dequeue_read_def Let_def)
      from dequeue_read_clean_io [OF this assms(2)] show ?thesis .
    next
      case same: True
      with assms(1) Cons obtain bs1 op1 where
        walk: "dirty_walk (sqe_tail (ring bs)) bs op (n # ns) = Inr (True, bs1, op1)"
        and fin: "dequeue_read_clean s (sqe_tail (ring bs)) bs1 op1 = Inr (1, bs', op')"
        by (auto simp: dequeue_read_def Let_def simp del: dirty_walk.simps
            split: sum.splits if_splits)
      note c = dequeue_read_clean_io [OF fin assms(2)]
      have "op_read_vec op1 = []"
        using fin assms(2)
        by (auto simp: dequeue_read_clean_def split: option.splits sum.splits if_splits
            dest!: dequeue_read_finish_io fulfill_read_io)
      with dirty_walk_io [OF walk] c show ?thesis by simp
    qed
  qed
qed

text \<open>
  C7. A \<open>READ\<close> of an object with no clean entry and no dirty entry, on the store
  without any object: the decrement of \<open>begin()\<close> comes before the zero fill, and no
  result is returned.
\<close>

theorem read_unallocated_fresh_store:
  "dequeue_read 1 ex_store ex_read = Inl Iterator_decrement_begin"
  by (simp add: dequeue_read_def ex_store_def)

section \<open>A deletion above an older version\<close>

text \<open>
  C1. A \<open>READ\<close> of bytes 0 to 511 of an object whose version 2 is a synced deletion of
  the whole block and whose version 1 is stable in the journal and covers the range. The
  deletion zeroes the buffer and leaves no node in \<open>read_vec\<close>; version 1 then finds the
  range uncovered, and a kernel read of its journal payload (offset 4096) into the same
  bytes is submitted: the bytes returned are those of version 1, not of the deletion.
\<close>

theorem deleted_version_overwritten_by_older:
  "dequeue_read 1 (ex_store\<lparr>dirty_db := ex_dirty_deleted\<rparr>) ex_read =
     Inr (1,
       ex_store\<lparr>dirty_db := ex_dirty_deleted, in_process_ops := {7},
         ring := \<lparr>sq_entries = 8, sq_head = 1,
           sqes = [Some \<lparr>sq_opcode = Readv, sq_fd = 5,
                          sq_iov = \<lparr>iov_base = Op_buf 0, iov_len = 512\<rparr>,
                          sq_off = 4096, sq_op = 7\<rparr>]\<rparr>\<rparr>,
       ex_read\<lparr>op_buf := replicate 512 0,
         op_read_vec := [(0, \<lparr>iov_base = Op_buf 0, iov_len = 512\<rparr>)],
         op_retval := 0, op_pending_ops := 1\<rparr>)"
  by (simp add: dequeue_read_def ex_store_def ex_dirty_deleted_def ex_other_def ex_read_def
      ex_oid1_def ex_oid0_def obj_ver_less_def oid_less_def fulfill_read_def
      fulfill_read_push_def IS_STABLE_def IS_JOURNAL_def memset_zero_def ring_get_sqe_def
      ex_ring_def ex_journal_def ring_prep_def sqe_tail_def dequeue_read_clean_def
      dequeue_read_finish_def ring_submit_def Let_def)

section \<open>Reads and the journal\<close>

lemma fulfill_read_push_journal:
  "fulfill_read_push bs op a st v l cs ce = Inr (r, bs', op') \<Longrightarrow> journal bs' = journal bs"
  by (auto simp: fulfill_read_push_def Let_def split: if_splits option.splits)

lemma fulfill_read_gaps_journal:
  "fulfill_read_gaps bs op a e st v l cs ns = Inr (r, bs', op', cs') \<Longrightarrow> journal bs' = journal bs"
proof (induction ns arbitrary: bs op cs)
  case Nil
  then show ?case by simp
next
  case (Cons n ns)
  show ?case
  proof (cases "fst n < ucast e")
    case False
    with Cons.prems show ?thesis by simp
  next
    case True
    show ?thesis
    proof (cases "fulfill_read_push bs op a st v l cs (ucast (fst n))")
      case (Inl x)
      with True Cons.prems show ?thesis by simp
    next
      case (Inr res)
      obtain r1 bs1 op1 where res: "res = (r1, bs1, op1)" by (cases res) auto
      have j1: "journal bs1 = journal bs"
        using Inr res fulfill_read_push_journal by blast
      show ?thesis
      proof (cases "r1 < 0")
        case neg: True
        with True Inr res Cons.prems j1 show ?thesis by simp
      next
        case nonneg: False
        with True Inr res Cons.prems
        have "fulfill_read_gaps bs1 op1 a e st v l (ucast (fst n + iov_len (snd n))) ns
                = Inr (r, bs', op', cs')" by simp
        then have "journal bs' = journal bs1" by (rule Cons.IH)
        with j1 show ?thesis by simp
      qed
    qed
  qed
qed

lemma fulfill_read_journal:
  assumes "fulfill_read bs op a e st v l = Inr (r, bs', op')"
  shows "journal bs' = journal bs"
  using assms
  by (auto simp: fulfill_read_def Let_def split: if_splits sum.splits
      dest!: fulfill_read_gaps_journal fulfill_read_push_journal)

lemma dirty_walk_journal:
  "dirty_walk p bs op ns = Inr (g, bs', op') \<Longrightarrow> journal bs' = journal bs"
proof (induction ns arbitrary: bs op)
  case Nil
  then show ?case by simp
next
  case (Cons n ns)
  then show ?case
    by (auto split: if_splits sum.splits dest!: fulfill_read_journal)
qed

lemma read_zeroes_state: "read_zeroes bs op = Inr (r, bs', op') \<Longrightarrow> bs' = bs"
  by (auto simp: read_zeroes_def split: option.splits)

lemma dequeue_read_finish_journal:
  "dequeue_read_finish s bs op = Inr (r, bs', op') \<Longrightarrow> journal bs' = journal bs"
  by (auto simp: dequeue_read_finish_def split: if_splits dest!: read_zeroes_state)

lemma dequeue_read_clean_journal:
  "dequeue_read_clean s p bs op = Inr (r, bs', op') \<Longrightarrow> journal bs' = journal bs"
  by (auto simp: dequeue_read_clean_def split: if_splits option.splits sum.splits
      dest!: fulfill_read_journal dequeue_read_finish_journal)

text \<open>
  No read touches the journal state: whatever \<open>dequeue_read\<close> returns, the journal, and
  with it the usage count of every journal sector, is what it was before, also when
  kernel reads from the journal region were submitted.
\<close>

lemma read_leaves_journal:
  assumes "dequeue_read s bs op = Inr (r, bs', op')"
  shows "journal bs' = journal bs"
  using assms
  by (auto simp: dequeue_read_def Let_def simp del: dirty_walk.simps
      split: list.splits if_splits sum.splits
      dest!: read_zeroes_state dirty_walk_journal dequeue_read_clean_journal)

text \<open>
  The \<open>READ\<close> of a version that is stable in the journal: one kernel read of the journal
  (fd 5) at 4096 is submitted, and the journal of the state returned is the one given.
\<close>

lemma read_leaves_journal_example:
  "dequeue_read 1 ex_store_stable ex_read =
     Inr (1,
       ex_store_stable\<lparr>in_process_ops := {7},
         ring := \<lparr>sq_entries = 8, sq_head = 1,
           sqes = [Some \<lparr>sq_opcode = Readv, sq_fd = 5,
                          sq_iov = \<lparr>iov_base = Op_buf 0, iov_len = 512\<rparr>,
                          sq_off = 4096, sq_op = 7\<rparr>]\<rparr>\<rparr>,
       ex_read\<lparr>op_read_vec := [(0, \<lparr>iov_base = Op_buf 0, iov_len = 512\<rparr>)],
         op_retval := 0, op_pending_ops := 1\<rparr>)
   \<and> journal (ex_store_stable\<lparr>in_process_ops := {7},
         ring := \<lparr>sq_entries = 8, sq_head = 1,
           sqes = [Some \<lparr>sq_opcode = Readv, sq_fd = 5,
                          sq_iov = \<lparr>iov_base = Op_buf 0, iov_len = 512\<rparr>,
                          sq_off = 4096, sq_op = 7\<rparr>]\<rparr>\<rparr>) = journal ex_store_stable"
proof -
  have run: "dequeue_read 1 ex_store_stable ex_read =
     Inr (1,
       ex_store_stable\<lparr>in_process_ops := {7},
         ring := \<lparr>sq_entries = 8, sq_head = 1,
           sqes = [Some \<lparr>sq_opcode = Readv, sq_fd = 5,
                          sq_iov = \<lparr>iov_base = Op_buf 0, iov_len = 512\<rparr>,
                          sq_off = 4096, sq_op = 7\<rparr>]\<rparr>\<rparr>,
       ex_read\<lparr>op_read_vec := [(0, \<lparr>iov_base = Op_buf 0, iov_len = 512\<rparr>)],
         op_retval := 0, op_pending_ops := 1\<rparr>)"
    by (simp add: ex_ring_def ex_journal_def ex_store_def ex_oid0_def ex_oid1_def ex_read_def
        ex_other_def ex_dirty_stable_def ex_store_stable_def read_defs)
  from run read_leaves_journal [OF run] show ?thesis by (rule conjI)
qed

text \<open>
  C8. A \<open>READ\<close> of a version that is stable in the journal submits a kernel read from the
  journal region (the journal's fd 5, version 1's payload at 4096), and the journal of
  the state returned is the one given: the usage count of every journal sector is what it
  was, 0, and nothing records the journal offset the read uses. No sector is pinned for
  the duration of the I/O.
\<close>

theorem journal_read_pins_nothing:
  "dequeue_read 1 ex_store_stable ex_read =
     Inr (1,
       ex_store\<lparr>dirty_db := ex_dirty_stable, in_process_ops := {7},
         ring := \<lparr>sq_entries = 8, sq_head = 1,
           sqes = [Some \<lparr>sq_opcode = Readv, sq_fd = j_fd ex_journal,
                          sq_iov = \<lparr>iov_base = Op_buf 0, iov_len = 512\<rparr>,
                          sq_off = j_offset ex_journal + 4096, sq_op = 7\<rparr>]\<rparr>,
         journal := ex_journal\<rparr>,
       ex_read\<lparr>op_read_vec := [(0, \<lparr>iov_base = Op_buf 0, iov_len = 512\<rparr>)],
         op_retval := 0, op_pending_ops := 1\<rparr>)
   \<and> si_usage_count (j_sector_info ex_journal 0) = 0
   \<and> si_usage_count (j_sector_info ex_journal 8) = 0"
  by (simp add: ex_ring_def ex_journal_def ex_store_def ex_oid0_def ex_oid1_def ex_read_def
      ex_other_def ex_dirty_stable_def ex_store_stable_def read_defs)

section \<open>Reads and versions in flight\<close>

lemma oid_less_irrefl: "\<not> oid_less a a"
  by (simp add: oid_less_def)

lemma oid_less_asym: "oid_less a b \<Longrightarrow> \<not> oid_less b a"
  by (auto simp: oid_less_def)

lemma above_max_version:
  "obj_ver_less \<lparr>ov_oid = oid, ov_version = - 1\<rparr> k \<longleftrightarrow> oid_less oid (ov_oid k)"
proof -
  have "\<not> (- 1 :: u64) < ov_version k"
    by (simp add: word_order.extremum_strict)
  then show ?thesis by (simp add: obj_ver_less_def)
qed

lemma upper_bound_append:
  "\<forall>n \<in> set pre. \<not> obj_ver_less k (fst n)
   \<Longrightarrow> upper_bound k (pre @ post) = length pre + upper_bound k post"
  by (induction pre) auto

lemma upper_bound_sorted_0:
  "\<forall>n \<in> set post. obj_ver_less k (fst n) \<Longrightarrow> upper_bound k post = 0"
  by (cases post) auto

text \<open>On a sorted index the node below \<open>upper_bound (oid, UINT64_MAX)\<close> is the newest version.\<close>

lemma newest_dirty_lookup:
  assumes sorted: "sorted_dirty db"
    and mem: "(k, d) \<in> set db"
    and newest: "\<forall>n \<in> set db. ov_oid (fst n) = ov_oid k \<longrightarrow> ov_version (fst n) \<le> ov_version k"
  shows "\<exists>older. rev (take (upper_bound \<lparr>ov_oid = ov_oid k, ov_version = - 1\<rparr> db) db) = (k, d) # older"
proof -
  let ?top = "\<lparr>ov_oid = ov_oid k, ov_version = - 1\<rparr>"
  from mem obtain pre post where db: "db = pre @ (k, d) # post"
    by (auto dest: split_list)
  from sorted have below: "\<forall>n \<in> set pre. obj_ver_less (fst n) k"
    and above: "\<forall>n \<in> set post. obj_ver_less k (fst n)"
    by (auto simp: sorted_dirty_def db sorted_wrt_append)
  have lo: "\<forall>n \<in> set (pre @ [(k, d)]). \<not> obj_ver_less ?top (fst n)"
  proof
    fix n assume n: "n \<in> set (pre @ [(k, d)])"
    show "\<not> obj_ver_less ?top (fst n)"
    proof (cases "n = (k, d)")
      case True
      then show ?thesis by (simp add: above_max_version oid_less_irrefl)
    next
      case False
      with n below have "obj_ver_less (fst n) k" by auto
      then show ?thesis
        by (auto simp: above_max_version obj_ver_less_def oid_less_irrefl dest: oid_less_asym)
    qed
  qed
  have hi: "\<forall>n \<in> set post. obj_ver_less ?top (fst n)"
  proof
    fix n assume n: "n \<in> set post"
    with above have "obj_ver_less k (fst n)" by simp
    moreover from n newest have "ov_oid (fst n) = ov_oid k \<longrightarrow> ov_version (fst n) \<le> ov_version k"
      by (simp add: db)
    ultimately show "obj_ver_less ?top (fst n)"
      by (auto simp: above_max_version obj_ver_less_def)
  qed
  have "upper_bound ?top db = Suc (length pre)"
    using upper_bound_append [OF lo, of post] upper_bound_sorted_0 [OF hi]
    by (simp add: db)
  then have "rev (take (upper_bound ?top db) db) = (k, d) # rev pre"
    by (simp add: db)
  then show ?thesis by blast
qed

lemma overlap_words:
  fixes o' sz off n :: u32
  assumes "unat o' + unat sz < 2 ^ 32" and "unat off + unat n < 2 ^ 32"
    and "unat o' < unat off + unat n" and "unat off < unat o' + unat sz"
    and "0 < unat sz" and "0 < unat n"
  shows "o' < off + n" and "o' + sz > off"
    and "(if o' + sz > off + n then off + n else o' + sz) > (if o' < off then off else o')"
proof -
  have a: "unat (off + n) = unat off + unat n"
    using assms(2) by (simp add: unat_add_lem [THEN iffD1])
  have b: "unat (o' + sz) = unat o' + unat sz"
    using assms(1) by (simp add: unat_add_lem [THEN iffD1])
  show "o' < off + n" using assms(3) by (simp add: word_less_nat_alt a)
  show "o' + sz > off" using assms(4) by (simp add: word_less_nat_alt b)
  show "(if o' + sz > off + n then off + n else o' + sz) > (if o' < off then off else o')"
    using assms(3-6) by (simp add: word_less_nat_alt a b)
qed

lemma ring_set_tail_same: "ring_set_tail r (sqe_tail r) = r"
  by (simp add: ring_set_tail_def sqe_tail_def)

lemma fulfill_read_in_flight:
  assumes "op_read_vec op = []"
    and "unat o' + unat sz < 2 ^ 32" and "unat (op_offset op) + unat (op_len op) < 2 ^ 32"
    and "unat o' < unat (op_offset op) + unat (op_len op)"
    and "unat (op_offset op) < unat o' + unat sz"
    and "0 < unat sz" and "0 < unat (op_len op)"
  shows "fulfill_read bs op o' (o' + sz) ST_IN_FLIGHT v loc =
           Inr (- 1, bs, op\<lparr>op_wait_for := WAIT_IN_FLIGHT, op_wait_detail := v\<rparr>)"
  using overlap_words [OF assms(2-7)] assms(1)
  by (simp add: fulfill_read_def Let_def fulfill_read_push_def)

lemma read_dirty_stalls:
  assumes rd: "(op_flags op AND OP_TYPE_MASK) = OP_READ_DIRTY"
    and fresh: "op_read_vec op = []"
    and sorted: "sorted_dirty (dirty_db bs)"
    and newest: "newest_dirty (dirty_db bs) (op_oid op) (k, d)"
    and st: "de_state d = ST_IN_FLIGHT"
    and over: "overlaps_request d op"
  shows "dequeue_read s bs op =
           Inr (0, bs, op\<lparr>op_wait_for := WAIT_IN_FLIGHT, op_wait_detail := ov_version k\<rparr>)"
proof -
  from newest have mem: "(k, d) \<in> set (dirty_db bs)" and oid: "ov_oid k = op_oid op"
    and top: "\<forall>n \<in> set (dirty_db bs). ov_oid (fst n) = ov_oid k \<longrightarrow> ov_version (fst n) \<le> ov_version k"
    by (auto simp: newest_dirty_def)
  from newest_dirty_lookup [OF sorted mem top] oid obtain older where
    look: "rev (take (upper_bound \<lparr>ov_oid = op_oid op, ov_version = - 1\<rparr> (dirty_db bs)) (dirty_db bs))
             = (k, d) # older"
    by auto
  from over have
    "unat (de_offset d) + unat (de_size d) < 2 ^ 32"
    "unat (op_offset op) + unat (op_len op) < 2 ^ 32"
    "unat (de_offset d) < unat (op_offset op) + unat (op_len op)"
    "unat (op_offset op) < unat (de_offset d) + unat (de_size d)"
    "0 < unat (de_size d)" "0 < unat (op_len op)"
    by (simp_all add: overlaps_request_def)
  from fulfill_read_in_flight [OF fresh this]
  have ff: "fulfill_read bs op (de_offset d) (de_offset d + de_size d) ST_IN_FLIGHT (ov_version k)
              (de_location d) =
           Inr (- 1, bs, op\<lparr>op_wait_for := WAIT_IN_FLIGHT, op_wait_detail := ov_version k\<rparr>)" .
  have same: "op\<lparr>op_wait_for := WAIT_IN_FLIGHT, op_wait_detail := ov_version k, op_read_vec := []\<rparr>
      = op\<lparr>op_wait_for := WAIT_IN_FLIGHT, op_wait_detail := ov_version k\<rparr>"
    using fresh by (cases op) simp
  show ?thesis
    using rd oid st ff same
    by (simp add: dequeue_read_def look Let_def ring_set_tail_same)
qed

text \<open>
  A source that is not in flight leaves \<open>wait_detail\<close> alone, and \<open>wait_for\<close> too unless
  the ring is full.
\<close>

lemma stable_not_in_flight: "IS_STABLE st \<Longrightarrow> st \<noteq> ST_IN_FLIGHT"
  by (auto simp: IS_STABLE_def)

lemma fulfill_read_push_wait:
  assumes "fulfill_read_push bs op a st v l cs ce = Inr (r, bs', op')" and "st \<noteq> ST_IN_FLIGHT"
  shows "op_flags op' = op_flags op \<and> op_wait_detail op' = op_wait_detail op
         \<and> (op_wait_for op' = op_wait_for op \<or> op_wait_for op' = WAIT_SQE)"
  using assms by (auto simp: fulfill_read_push_def Let_def split: if_splits option.splits)

lemma fulfill_read_gaps_wait:
  assumes "fulfill_read_gaps bs op a e st v l cs ns = Inr (r, bs', op', cs')" and "st \<noteq> ST_IN_FLIGHT"
  shows "op_flags op' = op_flags op \<and> op_wait_detail op' = op_wait_detail op
         \<and> (op_wait_for op' = op_wait_for op \<or> op_wait_for op' = WAIT_SQE)"
  using assms
proof (induction ns arbitrary: bs op cs)
  case Nil
  then show ?case by simp
next
  case (Cons n ns)
  show ?case
  proof (cases "fst n < ucast e")
    case False
    with Cons.prems show ?thesis by simp
  next
    case True
    show ?thesis
    proof (cases "fulfill_read_push bs op a st v l cs (ucast (fst n))")
      case (Inl x)
      with True Cons.prems show ?thesis by simp
    next
      case (Inr res)
      obtain r1 bs1 op1 where res: "res = (r1, bs1, op1)" by (cases res) auto
      have w1: "op_flags op1 = op_flags op \<and> op_wait_detail op1 = op_wait_detail op
         \<and> (op_wait_for op1 = op_wait_for op \<or> op_wait_for op1 = WAIT_SQE)"
        using Inr res Cons.prems(2) fulfill_read_push_wait by blast
      show ?thesis
      proof (cases "r1 < 0")
        case neg: True
        with True Inr res Cons.prems w1 show ?thesis by simp
      next
        case nonneg: False
        with True Inr res Cons.prems
        have "fulfill_read_gaps bs1 op1 a e st v l (ucast (fst n + iov_len (snd n))) ns
                = Inr (r, bs', op', cs')" by simp
        then have "op_flags op' = op_flags op1 \<and> op_wait_detail op' = op_wait_detail op1
         \<and> (op_wait_for op' = op_wait_for op1 \<or> op_wait_for op' = WAIT_SQE)"
          using Cons.prems(2) by (rule Cons.IH)
        with w1 show ?thesis by auto
      qed
    qed
  qed
qed

lemma fulfill_read_wait:
  assumes "fulfill_read bs op a e st v l = Inr (r, bs', op')" and "st \<noteq> ST_IN_FLIGHT"
  shows "op_flags op' = op_flags op \<and> op_wait_detail op' = op_wait_detail op
         \<and> (op_wait_for op' = op_wait_for op \<or> op_wait_for op' = WAIT_SQE)"
  using assms(1)
  by (auto simp: fulfill_read_def Let_def split: if_splits sum.splits
      dest!: fulfill_read_gaps_wait [OF _ assms(2)] fulfill_read_push_wait [OF _ assms(2)])

lemma dirty_walk_wait:
  assumes "dirty_walk p bs op ns = Inr (g, bs', op')"
    and "(op_flags op AND OP_TYPE_MASK) \<noteq> OP_READ_DIRTY"
  shows "op_wait_detail op' = op_wait_detail op
         \<and> (op_wait_for op' = op_wait_for op \<or> op_wait_for op' = WAIT_SQE)"
  using assms
proof (induction ns arbitrary: bs op)
  case Nil
  then show ?case by simp
next
  case (Cons n ns)
  show ?case
  proof (cases "ov_oid (fst n) = op_oid op")
    case False
    with Cons.prems(1) show ?thesis by simp
  next
    case same: True
    show ?thesis
    proof (cases "IS_STABLE (de_state (snd n))")
      case False
      with same Cons.prems have "dirty_walk p bs op ns = Inr (g, bs', op')" by simp
      then show ?thesis using Cons.prems(2) by (rule Cons.IH)
    next
      case stable: True
      show ?thesis
      proof (cases "fulfill_read bs op (de_offset (snd n)) (de_offset (snd n) + de_size (snd n))
                      (de_state (snd n)) (ov_version (fst n)) (de_location (snd n))")
        case (Inl x)
        with same stable Cons.prems(1) show ?thesis by simp
      next
        case (Inr res)
        obtain r1 bs1 op1 where res: "res = (r1, bs1, op1)" by (cases res) auto
        have w1: "op_flags op1 = op_flags op \<and> op_wait_detail op1 = op_wait_detail op
           \<and> (op_wait_for op1 = op_wait_for op \<or> op_wait_for op1 = WAIT_SQE)"
          using Inr res stable fulfill_read_wait stable_not_in_flight by blast
        show ?thesis
        proof (cases "r1 < 0")
          case True
          with same stable Inr res Cons.prems(1) w1 show ?thesis by auto
        next
          case False
          with same stable Inr res Cons.prems(1)
          have "dirty_walk p bs1 op1 ns = Inr (g, bs', op')" by simp
          moreover from w1 Cons.prems(2) have "(op_flags op1 AND OP_TYPE_MASK) \<noteq> OP_READ_DIRTY"
            by simp
          ultimately have "op_wait_detail op' = op_wait_detail op1
             \<and> (op_wait_for op' = op_wait_for op1 \<or> op_wait_for op' = WAIT_SQE)"
            by (rule Cons.IH)
          with w1 show ?thesis by auto
        qed
      qed
    qed
  qed
qed

lemma read_zeroes_wait:
  "read_zeroes bs op = Inr (r, bs', op')
   \<Longrightarrow> op_wait_detail op' = op_wait_detail op \<and> op_wait_for op' = op_wait_for op"
  by (auto simp: read_zeroes_def split: option.splits)

lemma dequeue_read_finish_wait:
  "dequeue_read_finish s bs op = Inr (r, bs', op')
   \<Longrightarrow> op_wait_detail op' = op_wait_detail op \<and> op_wait_for op' = op_wait_for op"
  by (auto simp: dequeue_read_finish_def split: if_splits dest!: read_zeroes_wait)

lemma dequeue_read_clean_wait:
  assumes "dequeue_read_clean s p bs op = Inr (r, bs', op')"
  shows "op_wait_detail op' = op_wait_detail op
         \<and> (op_wait_for op' = op_wait_for op \<or> op_wait_for op' = WAIT_SQE)"
proof -
  have cur: "ST_CURRENT \<noteq> ST_IN_FLIGHT" by simp
  show ?thesis
    using assms
    by (auto simp: dequeue_read_clean_def split: if_splits option.splits sum.splits
        dest!: fulfill_read_wait [OF _ cur] dequeue_read_finish_wait)
qed

lemma plain_read_wait:
  assumes "dequeue_read s bs op = Inr (r, bs', op')"
    and "(op_flags op AND OP_TYPE_MASK) \<noteq> OP_READ_DIRTY"
  shows "op_wait_detail op' = op_wait_detail op
         \<and> (op_wait_for op' = op_wait_for op \<or> op_wait_for op' = WAIT_SQE)"
  using assms(1)
  by (auto simp: dequeue_read_def Let_def simp del: dirty_walk.simps
      split: list.splits if_splits sum.splits
      dest!: read_zeroes_wait dirty_walk_wait [OF _ assms(2)] dequeue_read_clean_wait)

text \<open>
  What the two kinds of read do. A \<open>READ_DIRTY\<close> with an empty \<open>read_vec\<close>, on an object whose
  newest dirty version is in flight and overlaps the requested range, stalls: \<open>dequeue_read\<close>
  returns 0 with \<open>wait_for = WAIT_IN_FLIGHT\<close> and \<open>wait_detail\<close> that version, and the
  state, the ring included, is what it was, whatever older versions cover. A plain \<open>READ\<close>
  never parks on a version in flight: whatever \<open>dequeue_read\<close> returns, \<open>wait_detail\<close> is
  untouched and \<open>wait_for\<close> is untouched or \<open>WAIT_SQE\<close>.
\<close>

lemma in_flight_stall:
  "((op_flags op AND OP_TYPE_MASK) = OP_READ_DIRTY \<and> op_read_vec op = []
      \<and> sorted_dirty (dirty_db bs) \<and> newest_dirty (dirty_db bs) (op_oid op) (k, d)
      \<and> de_state d = ST_IN_FLIGHT \<and> overlaps_request d op
    \<longrightarrow> dequeue_read s bs op =
          Inr (0, bs, op\<lparr>op_wait_for := WAIT_IN_FLIGHT, op_wait_detail := ov_version k\<rparr>))
   \<and> ((op_flags op AND OP_TYPE_MASK) \<noteq> OP_READ_DIRTY
        \<and> dequeue_read s bs op = Inr (r, bs', op')
      \<longrightarrow> op_wait_detail op' = op_wait_detail op
          \<and> (op_wait_for op' = op_wait_for op \<or> op_wait_for op' = WAIT_SQE))"
  using read_dirty_stalls [of op bs k d s] plain_read_wait [of s bs op r bs' op']
  by blast

text \<open>
  Version 2 of object \<open>(1, 0)\<close> is in flight over bytes 0 to 511 and version 1, stable,
  covers the same bytes: the \<open>READ_DIRTY\<close> stalls on version 2, the \<open>READ\<close> is submitted.
\<close>

lemma in_flight_stall_example:
  "(op_flags ex_read_dirty AND OP_TYPE_MASK) = OP_READ_DIRTY \<and> op_read_vec ex_read_dirty = []
   \<and> sorted_dirty (dirty_db ex_store_in_flight)
   \<and> newest_dirty (dirty_db ex_store_in_flight) (op_oid ex_read_dirty) ex_in_flight
   \<and> de_state (snd ex_in_flight) = ST_IN_FLIGHT \<and> overlaps_request (snd ex_in_flight) ex_read_dirty
   \<and> dequeue_read 1 ex_store_in_flight ex_read_dirty =
        Inr (0, ex_store_in_flight, ex_read_dirty\<lparr>op_wait_for := WAIT_IN_FLIGHT, op_wait_detail := 2\<rparr>)
   \<and> (op_flags ex_read AND OP_TYPE_MASK) \<noteq> OP_READ_DIRTY
   \<and> dequeue_read 1 ex_store_in_flight ex_read =
        Inr (1,
          ex_store_in_flight\<lparr>in_process_ops := {7},
            ring := \<lparr>sq_entries = 8, sq_head = 1,
              sqes = [Some \<lparr>sq_opcode = Readv, sq_fd = 5,
                             sq_iov = \<lparr>iov_base = Op_buf 0, iov_len = 512\<rparr>,
                             sq_off = 4096, sq_op = 7\<rparr>]\<rparr>\<rparr>,
          ex_read\<lparr>op_read_vec := [(0, \<lparr>iov_base = Op_buf 0, iov_len = 512\<rparr>)],
            op_retval := 0, op_pending_ops := 1\<rparr>)
   \<and> op_wait_detail (ex_read\<lparr>op_read_vec := [(0, \<lparr>iov_base = Op_buf 0, iov_len = 512\<rparr>)],
            op_retval := 0, op_pending_ops := 1\<rparr>) = op_wait_detail ex_read"
proof -
  note ex_simps = ex_ring_def ex_journal_def ex_store_def ex_oid0_def ex_oid1_def ex_read_def
    ex_other_def ex_read_dirty_def ex_dirty_stable_def ex_in_flight_def ex_store_in_flight_def
  have rd: "(op_flags ex_read_dirty AND OP_TYPE_MASK) = OP_READ_DIRTY"
    by (simp add: ex_simps)
  have fresh: "op_read_vec ex_read_dirty = []"
    by (simp add: ex_simps)
  have sorted: "sorted_dirty (dirty_db ex_store_in_flight)"
    by (simp add: sorted_dirty_def ex_simps obj_ver_less_def oid_less_def)
  have newest: "newest_dirty (dirty_db ex_store_in_flight) (op_oid ex_read_dirty) (fst ex_in_flight, snd ex_in_flight)"
    by (simp add: newest_dirty_def ex_simps)
  have st: "de_state (snd ex_in_flight) = ST_IN_FLIGHT"
    by (simp add: ex_simps)
  have over: "overlaps_request (snd ex_in_flight) ex_read_dirty"
    by (simp add: overlaps_request_def ex_simps)
  have ver: "ov_version (fst ex_in_flight) = 2"
    by (simp add: ex_simps)
  have plain: "(op_flags ex_read AND OP_TYPE_MASK) \<noteq> OP_READ_DIRTY"
    by (simp add: ex_simps)
  have run: "dequeue_read 1 ex_store_in_flight ex_read =
        Inr (1,
          ex_store_in_flight\<lparr>in_process_ops := {7},
            ring := \<lparr>sq_entries = 8, sq_head = 1,
              sqes = [Some \<lparr>sq_opcode = Readv, sq_fd = 5,
                             sq_iov = \<lparr>iov_base = Op_buf 0, iov_len = 512\<rparr>,
                             sq_off = 4096, sq_op = 7\<rparr>]\<rparr>\<rparr>,
          ex_read\<lparr>op_read_vec := [(0, \<lparr>iov_base = Op_buf 0, iov_len = 512\<rparr>)],
            op_retval := 0, op_pending_ops := 1\<rparr>)"
    by (simp add: ex_simps read_defs)
  have stall: "dequeue_read 1 ex_store_in_flight ex_read_dirty =
        Inr (0, ex_store_in_flight, ex_read_dirty\<lparr>op_wait_for := WAIT_IN_FLIGHT, op_wait_detail := 2\<rparr>)"
    using in_flight_stall [of ex_read_dirty ex_store_in_flight "fst ex_in_flight" "snd ex_in_flight" 1]
      rd fresh sorted newest st over ver
    by simp
  have det: "op_wait_detail (ex_read\<lparr>op_read_vec := [(0, \<lparr>iov_base = Op_buf 0, iov_len = 512\<rparr>)],
            op_retval := 0, op_pending_ops := 1\<rparr>) = op_wait_detail ex_read"
    using in_flight_stall [of ex_read ex_store_in_flight _ _ 1] plain run
    by blast
  from newest have newest': "newest_dirty (dirty_db ex_store_in_flight) (op_oid ex_read_dirty) ex_in_flight"
    by simp
  from rd fresh sorted newest' st over stall plain run det show ?thesis
    by blast
qed

text \<open>
  C2. Version 2 of the object is in flight and version 1, stable, covers the requested
  range. The plain \<open>READ\<close> does not stall: \<open>dequeue_read\<close> returns 1, the read of version
  1 is submitted, and \<open>wait_for\<close> stays 0. The version in flight is skipped, since it is
  not stable, before \<open>fulfill_read\<close> could see its state.
\<close>

theorem plain_read_not_stalled:
  "dequeue_read 1 (ex_store\<lparr>dirty_db := ex_dirty_stable @ [ex_in_flight]\<rparr>) ex_read =
     Inr (1,
       ex_store\<lparr>dirty_db := ex_dirty_stable @ [ex_in_flight], in_process_ops := {7},
         ring := \<lparr>sq_entries = 8, sq_head = 1,
           sqes = [Some \<lparr>sq_opcode = Readv, sq_fd = 5,
                          sq_iov = \<lparr>iov_base = Op_buf 0, iov_len = 512\<rparr>,
                          sq_off = 4096, sq_op = 7\<rparr>]\<rparr>\<rparr>,
       ex_read\<lparr>op_read_vec := [(0, \<lparr>iov_base = Op_buf 0, iov_len = 512\<rparr>)],
         op_retval := 0, op_pending_ops := 1, op_wait_for := 0\<rparr>)
   \<and> de_state (snd ex_in_flight) = ST_IN_FLIGHT \<and> ov_oid (fst ex_in_flight) = op_oid ex_read
   \<and> op_flags ex_read = OP_READ"
  by (simp add: ex_ring_def ex_journal_def ex_store_def ex_oid0_def ex_oid1_def ex_read_def
      ex_other_def ex_dirty_stable_def ex_in_flight_def read_defs)

section \<open>The checksum chain of small writes\<close>

lemma BS_GET_SQE_keeps:
  "BS_GET_SQE bs = Some (i, bs1)
   \<Longrightarrow> journal bs1 = journal bs \<and> block_size bs1 = block_size bs \<and> dirty_db bs1 = dirty_db bs"
  by (auto simp: BS_GET_SQE_def split: option.splits)

lemma advance_sector_crc: "j_crc32_last (advance_sector j) = j_crc32_last j"
  by (simp add: advance_sector_def Let_def)

lemma small_write_entry_crc:
  "crc32_prev (small_write_entry c j op) = j_crc32_last j"
  "crc32 (small_write_entry c j op) = je_crc32 c ((small_write_entry c j op)\<lparr>crc32 := 0\<rparr>)"
  by (simp_all add: small_write_entry_def Let_def)

lemma small_write_submit_entry:
  assumes "small_write_submit c bs op it s1 s2 = Inr (r, bs', op')"
  shows "r = 1 \<and> block_size bs' = block_size bs
    \<and> (\<exists>je. appended_entry bs' = Some je \<and> crc32_prev je = j_crc32_last (journal bs)
          \<and> crc32 je = je_crc32 c (je\<lparr>crc32 := 0\<rparr>) \<and> j_crc32_last (journal bs') = crc32 je)"
proof -
  define j1 where "j1 = (if sector_full c (journal bs) then advance_sector (journal bs) else journal bs)"
  define je where "je = small_write_entry c j1 op"
  have prev: "crc32_prev je = j_crc32_last (journal bs)"
    by (simp add: je_def small_write_entry_crc j1_def advance_sector_crc)
  have own: "crc32 je = je_crc32 c (je\<lparr>crc32 := 0\<rparr>)"
    unfolding je_def by (rule small_write_entry_crc)
  from assms have "r = 1 \<and> block_size bs' = block_size bs \<and> appended_entry bs' = Some je
      \<and> j_crc32_last (journal bs') = crc32 je"
    by (auto simp: small_write_submit_def Let_def j1_def je_def appended_entry_def entry_pos_def
        bs_prep_def split: sum.splits if_splits)
  with prev own show ?thesis by blast
qed

lemma dequeue_write_small_entry:
  assumes "dequeue_write_small c bs op it = Inr (r, bs', op')"
  shows "block_size bs' = block_size bs
    \<and> (if r = 1
        then \<exists>je. appended_entry bs' = Some je \<and> crc32_prev je = j_crc32_last (journal bs)
          \<and> crc32 je = je_crc32 c (je\<lparr>crc32 := 0\<rparr>) \<and> j_crc32_last (journal bs') = crc32 je
        else j_crc32_last (journal bs') = j_crc32_last (journal bs))"
  using assms
  by (auto simp: dequeue_write_small_def Let_def split: if_splits option.splits
      dest!: BS_GET_SQE_keeps small_write_submit_entry)

lemma dequeue_write_big_journal:
  assumes "dequeue_write_big c bs op it = Inr (r, bs', op')"
  shows "block_size bs' = block_size bs \<and> journal bs' = journal bs"
  using assms
  by (auto simp: dequeue_write_big_def Let_def bs_prep_def split: if_splits option.splits sum.splits
      dest!: BS_GET_SQE_keeps)

lemma dequeue_write_step:
  assumes "dequeue_write c bs op = Inr (r, bs', op')"
  shows "block_size bs' = block_size bs
    \<and> (if r = 1 \<and> op_len op \<noteq> block_size bs
        then \<exists>je. appended_entry bs' = Some je \<and> crc32_prev je = j_crc32_last (journal bs)
          \<and> crc32 je = je_crc32 c (je\<lparr>crc32 := 0\<rparr>) \<and> j_crc32_last (journal bs') = crc32 je
        else j_crc32_last (journal bs') = j_crc32_last (journal bs))"
proof (cases "op_len op = block_size bs")
  case True
  with assms show ?thesis
    by (auto simp: dequeue_write_def Let_def dest!: dequeue_write_big_journal)
next
  case False
  with assms have "dequeue_write_small c bs op
      (map_find \<lparr>ov_oid = op_oid op, ov_version = op_version op\<rparr> (dirty_db bs)) = Inr (r, bs', op')"
    by (simp add: dequeue_write_def Let_def)
  from dequeue_write_small_entry [OF this] False show ?thesis by simp
qed

text \<open>
  C3. Over any run of \<open>dequeue_write\<close> calls, the journal entries the small writes append
  form a chain in the order of the calls: the first carries in \<open>crc32_prev\<close> the
  \<open>journal.crc32_last\<close> the run started with, every later one the \<open>crc32\<close> of the entry
  appended before it, each \<open>crc32\<close> is \<open>je_crc32\<close> of the entry itself, and
  \<open>journal.crc32_last\<close> ends as the \<open>crc32\<close> of the last entry.
\<close>

theorem crc32_chain:
  assumes "dispatch_writes c bs ops = Inr (es, bs')"
  shows "crc_chained c (j_crc32_last (journal bs)) es (j_crc32_last (journal bs'))"
  using assms
proof (induction ops arbitrary: bs es)
  case Nil
  then show ?case by simp
next
  case (Cons op ops)
  from Cons.prems obtain r bs1 op1 where step: "dequeue_write c bs op = Inr (r, bs1, op1)"
    by (auto split: sum.splits)
  from Cons.prems step obtain es1 where rest: "dispatch_writes c bs1 ops = Inr (es1, bs')"
    and es: "es = (if r = 1 \<and> op_len op \<noteq> block_size bs
                   then (case appended_entry bs1 of None \<Rightarrow> [] | Some je \<Rightarrow> [je]) else []) @ es1"
    by (auto split: sum.splits)
  have chain1: "crc_chained c (j_crc32_last (journal bs1)) es1 (j_crc32_last (journal bs'))"
    using rest by (rule Cons.IH)
  show ?case
  proof (cases "r = 1 \<and> op_len op \<noteq> block_size bs")
    case True
    with dequeue_write_step [OF step] obtain je where
      "appended_entry bs1 = Some je" "crc32_prev je = j_crc32_last (journal bs)"
      "crc32 je = je_crc32 c (je\<lparr>crc32 := 0\<rparr>)" "j_crc32_last (journal bs1) = crc32 je"
      by auto
    with True es chain1 show ?thesis by simp
  next
    case False
    with dequeue_write_step [OF step] have "j_crc32_last (journal bs1) = j_crc32_last (journal bs)"
      by auto
    with False es chain1 show ?thesis by auto
  qed
qed

text \<open>Two small writes in a row: the second entry carries the checksum 513 of the first.\<close>

theorem crc32_chain_witness:
  "\<exists>bs'. dispatch_writes ex_decls ex_store_room [ex_write_small, ex_write_small\<lparr>op_version := 4\<rparr>]
           = Inr ([ex_entry3, ex_entry4], bs')
         \<and> crc_chained ex_decls (j_crc32_last (journal ex_store_room)) [ex_entry3, ex_entry4]
              (j_crc32_last (journal bs'))"
proof -
  have "\<exists>bs'. dispatch_writes ex_decls ex_store_room [ex_write_small, ex_write_small\<lparr>op_version := 4\<rparr>]
           = Inr ([ex_entry3, ex_entry4], bs')"
    by (simp add: ex_decls_def ex_ring_def ex_journal_def ex_store_def ex_oid0_def ex_oid1_def
        ex_other_def ex_write_small_def ex_dirty_writes_def ex_store_room_def ex_entry3_def
        ex_entry4_def write_defs appended_entry_def)
  then obtain bs' where
    run: "dispatch_writes ex_decls ex_store_room [ex_write_small, ex_write_small\<lparr>op_version := 4\<rparr>]
           = Inr ([ex_entry3, ex_entry4], bs')" ..
  from run crc32_chain [OF run] show ?thesis by blast
qed

section \<open>Waiting for journal space\<close>

text \<open>
  The branch of line 58. A small write that gets past the sector-buffer check (the entry
  fits into the current sector, or the next sector buffer is free) and whose \<open>next_pos\<close>
  is at or beyond \<open>journal.used_start\<close> is parked: \<open>dequeue_write\<close> returns 0 with
  \<open>wait_for = WAIT_JOURNAL\<close>, the state, the ring included, is what it was, and of the
  operation only \<open>wait_for\<close> and \<open>wait_detail\<close> are assigned.
\<close>

lemma journal_wait:
  assumes "op_len op \<noteq> block_size bs"
    and "sector_full c (journal bs) \<longrightarrow> j_sector_count (journal bs) \<noteq> 0
           \<and> si_usage_count (j_sector_info (journal bs) (unat (next_sector (journal bs)))) = 0"
    and "next_pos_end c (journal bs) (op_len op) \<ge> j_used_start (journal bs)"
  shows "\<exists>detail. dequeue_write c bs op =
           Inr (0, bs, op\<lparr>op_wait_for := WAIT_JOURNAL, op_wait_detail := detail\<rparr>)"
proof -
  have "dequeue_write c bs op =
      Inr (0, bs, op\<lparr>op_wait_for := WAIT_JOURNAL,
                      op_wait_detail := next_pos_end c (journal bs) (op_len op)\<rparr>)"
  proof (cases "sector_full c (journal bs)")
    case True
    with assms(2) have "j_sector_count (journal bs) \<noteq> 0"
      and "si_usage_count (j_sector_info (journal bs) (unat (next_sector (journal bs)))) = 0"
      by simp_all
    with True assms(1,3) show ?thesis
      by (simp add: dequeue_write_def dequeue_write_small_def Let_def)
  next
    case False
    with assms(1,3) show ?thesis
      by (simp add: dequeue_write_def dequeue_write_small_def Let_def)
  qed
  then show ?thesis by blast
qed

lemma journal_wait_example:
  "op_len ex_write_1k \<noteq> block_size ex_store_journal_full
   \<and> \<not> sector_full ex_decls (journal ex_store_journal_full)
   \<and> next_pos_end ex_decls (journal ex_store_journal_full) (op_len ex_write_1k)
        \<ge> j_used_start (journal ex_store_journal_full)
   \<and> (\<exists>detail. dequeue_write ex_decls ex_store_journal_full ex_write_1k =
          Inr (0, ex_store_journal_full,
               ex_write_1k\<lparr>op_wait_for := WAIT_JOURNAL, op_wait_detail := detail\<rparr>))"
proof -
  note ex_simps = ex_decls_def ex_ring_def ex_journal_def ex_store_def ex_oid0_def ex_oid1_def
    ex_other_def ex_write_small_def ex_dirty_writes_def ex_write_1k_def
    ex_store_journal_full_def
  have small: "op_len ex_write_1k \<noteq> block_size ex_store_journal_full"
    by (simp add: ex_simps)
  have fits: "\<not> sector_full ex_decls (journal ex_store_journal_full)"
    by (simp add: ex_simps sector_full_def)
  then have buffer: "sector_full ex_decls (journal ex_store_journal_full) \<longrightarrow>
      j_sector_count (journal ex_store_journal_full) \<noteq> 0
      \<and> si_usage_count (j_sector_info (journal ex_store_journal_full)
            (unat (next_sector (journal ex_store_journal_full)))) = 0"
    by simp
  have full: "next_pos_end ex_decls (journal ex_store_journal_full) (op_len ex_write_1k)
        \<ge> j_used_start (journal ex_store_journal_full)"
    by (simp add: ex_simps sector_full_def next_pos_end_def next_pos_sector_def)
  from small fits full journal_wait [OF small buffer full] show ?thesis by blast
qed

text \<open>
  The sector-buffer check comes first: a write of 512 bytes with \<open>next_free = 1024\<close> and
  \<open>used_start = 1536\<close> needs a new sector, whose buffer is in use, and is parked with
  \<open>WAIT_JOURNAL_BUFFER\<close> although its payload would run from 1536 into the used region.
\<close>

lemma journal_buffer_wait_first:
  "j_used_start (journal ex_store_busy)
     \<le> next_pos_end ex_decls (journal ex_store_busy) (op_len ex_write_small)
   \<and> dequeue_write ex_decls ex_store_busy ex_write_small =
        Inr (0, ex_store_busy, ex_write_small\<lparr>op_wait_for := WAIT_JOURNAL_BUFFER\<rparr>)"
  by (simp add: ex_decls_def ex_ring_def ex_journal_def ex_store_def ex_oid0_def ex_oid1_def
      ex_other_def ex_write_small_def ex_dirty_writes_def ex_store_busy_def write_defs)

text \<open>
  C6. Two writes. The first, 2048 bytes, meets a journal with 512 free bytes between
  \<open>next_free = 1047552\<close> and \<open>used_start = 1048064\<close> and 1024 bytes before
  \<open>journal.len\<close>: its reservation wraps to 512, into the used region, and it is not parked.
  \<open>dequeue_write\<close> returns 1, the payload write is queued at offset 512, \<open>next_free\<close>
  becomes 2560 and \<open>wait_for\<close> is not assigned. The second, 1024 bytes with
  \<open>next_free = 4096\<close> and \<open>used_start = 4608\<close>, is parked with \<open>WAIT_JOURNAL\<close>, and its
  \<open>wait_detail\<close> is 5120, the position where the reservation would end, while the write
  needs 1024 bytes of journal space.
\<close>

theorem journal_overrun_not_parked:
  "j_next_free (journal ex_store_wrapped) < j_used_start (journal ex_store_wrapped)
   \<and> j_used_start (journal ex_store_wrapped) - j_next_free (journal ex_store_wrapped) = 512
   \<and> j_len (journal ex_store_wrapped) - j_next_free (journal ex_store_wrapped) = 1024
   \<and> op_len ex_write_2k = 2048
   \<and> (\<exists>bs' op'. dequeue_write ex_decls ex_store_wrapped ex_write_2k = Inr (1, bs', op')
         \<and> sqes (ring bs') =
             [Some \<lparr>sq_opcode = Writev, sq_fd = 5,
                     sq_iov = \<lparr>iov_base = Sector_buf 0, iov_len = 512\<rparr>,
                     sq_off = 0, sq_op = 11\<rparr>,
              Some \<lparr>sq_opcode = Writev, sq_fd = 5,
                     sq_iov = \<lparr>iov_base = Op_buf 0, iov_len = 2048\<rparr>,
                     sq_off = 512, sq_op = 11\<rparr>]
         \<and> j_next_free (journal bs') = 2560
         \<and> op_wait_for op' = op_wait_for ex_write_2k)
   \<and> dequeue_write ex_decls ex_store_journal_full ex_write_1k =
        Inr (0, ex_store_journal_full,
             ex_write_1k\<lparr>op_wait_for := WAIT_JOURNAL, op_wait_detail := 5120\<rparr>)
   \<and> spec_journal_bytes_needed ex_decls (journal ex_store_journal_full) (op_len ex_write_1k) = 1024"
  by (simp add: ex_decls_def ex_ring_def ex_journal_def ex_store_def ex_oid0_def ex_oid1_def
      ex_other_def ex_write_small_def ex_dirty_writes_def ex_write_1k_def ex_write_2k_def
      ex_store_journal_full_def ex_store_wrapped_def write_defs spec_journal_bytes_needed_def)

section \<open>The journal position after a sector advance\<close>

lemma unat_u32_bound: "unat (n :: u32) < 2 ^ 32"
  using unsigned_less [of n, where 'a = nat] by simp

lemma unat_ucast_32_64: "unat (ucast (n :: u32) :: u64) = unat n"
  using unat_u32_bound [of n] by (simp add: unsigned_ucast_eq take_bit_eq_mod)

lemma next_free_arith:
  fixes nf1 len' :: u64 and n :: u32
  assumes len: "512 < len'" "len' \<le> 2 ^ 63"
    and nf: "512 \<le> nf1"
    and nf1: "unat nf1 < unat len' + 512"
  defines "nf2 \<equiv> (if len' - nf1 < ucast n then 512 else nf1)"
  defines "nf3 \<equiv> nf2 + ucast n"
  defines "nf4 \<equiv> (if nf3 \<ge> len' then 512 else nf3)"
  shows "512 \<le> nf4 \<and> nf4 < len'"
proof -
  have n: "unat (ucast n :: u64) < 2 ^ 32"
    using unat_u32_bound [of n] by (simp add: unat_ucast_32_64)
  have l: "unat len' \<le> 2 ^ 63" "512 < unat len'"
    using len by (simp_all add: word_le_nat_alt word_less_nat_alt)
  have f: "512 \<le> unat nf1"
    using nf by (simp add: word_le_nat_alt)
  have two: "unat nf2 = 512 \<or> nf2 = nf1"
    by (simp add: nf2_def)
  have nf2_ge: "512 \<le> unat nf2" using two f by auto
  have nf2_lt: "unat nf2 < unat len' + 512" using two nf1 l by auto
  have sum: "unat nf3 = unat nf2 + unat (ucast n :: u64)"
    unfolding nf3_def using nf2_lt l n by (simp add: unat_add_lem [THEN iffD1])
  show ?thesis
    using sum nf2_ge l
    by (auto simp: nf4_def word_le_nat_alt word_less_nat_alt)
qed


lemma small_write_submit_next_free:
  assumes run: "small_write_submit c bs op it s1 s2 = Inr (r, bs', op')"
    and len: "512 < j_len (journal bs)" "j_len (journal bs) \<le> 2 ^ 63"
    and nf: "512 \<le> j_next_free (journal bs)" "j_next_free (journal bs) < j_len (journal bs)"
  shows "512 \<le> j_next_free (journal bs') \<and> j_next_free (journal bs') < j_len (journal bs')"
proof -
  define j1 where "j1 = (if sector_full c (journal bs) then advance_sector (journal bs) else journal bs)"
  have len1: "j_len j1 = j_len (journal bs)"
    by (simp add: j1_def advance_sector_def Let_def)
  have l: "unat (j_len (journal bs)) \<le> 2 ^ 63" "512 < unat (j_len (journal bs))"
    using len by (simp_all add: word_le_nat_alt word_less_nat_alt)
  have f: "512 \<le> unat (j_next_free (journal bs))"
    "unat (j_next_free (journal bs)) < unat (j_len (journal bs))"
    using nf by (simp_all add: word_le_nat_alt word_less_nat_alt)
  have plus: "unat (j_next_free (journal bs) + 512) = unat (j_next_free (journal bs)) + 512"
    using f l by (simp add: unat_add_lem [THEN iffD1])
  have nf1: "512 \<le> j_next_free j1 \<and> unat (j_next_free j1) < unat (j_len (journal bs)) + 512"
    using f l plus
    by (auto simp: j1_def advance_sector_def Let_def word_le_nat_alt word_less_nat_alt)
  from run have out: "j_len (journal bs') = j_len (journal bs)
      \<and> j_next_free (journal bs') =
          (if (if j_len (journal bs) - j_next_free j1 < ucast (op_len op) then 512 else j_next_free j1)
                + ucast (op_len op) \<ge> j_len (journal bs)
           then 512
           else (if j_len (journal bs) - j_next_free j1 < ucast (op_len op) then 512 else j_next_free j1)
                + ucast (op_len op))"
    using len1
    by (auto simp: small_write_submit_def Let_def j1_def [symmetric] bs_prep_def
        split: sum.splits if_splits)
  from next_free_arith [OF len, of "j_next_free j1" "op_len op"] nf1 out
  show ?thesis by simp
qed


text \<open>
  Whatever the sector advance does, a small write that was submitted leaves \<open>next_free\<close>
  between 512 and \<open>journal.len\<close>, for a journal of more than 512 and at most \<open>2^63\<close>
  bytes whose \<open>next_free\<close> was in that range before.
\<close>

lemma small_write_next_free_bounds:
  assumes run: "dequeue_write c bs op = Inr (1, bs', op')"
    and small: "op_len op \<noteq> block_size bs"
    and len: "512 < j_len (journal bs)" "j_len (journal bs) \<le> 2 ^ 63"
    and nf: "512 \<le> j_next_free (journal bs)" "j_next_free (journal bs) < j_len (journal bs)"
  shows "512 \<le> j_next_free (journal bs') \<and> j_next_free (journal bs') < j_len (journal bs')"
proof -
  from run small obtain bs2 s1 s2 where j2: "journal bs2 = journal bs"
    and sub: "small_write_submit c bs2 op
        (map_find \<lparr>ov_oid = op_oid op, ov_version = op_version op\<rparr> (dirty_db bs)) s1 s2
        = Inr (1, bs', op')"
    by (auto simp: dequeue_write_def dequeue_write_small_def Let_def
        split: if_splits option.splits dest!: BS_GET_SQE_keeps)
  from small_write_submit_next_free [OF sub] len nf j2 show ?thesis by simp
qed

text \<open>
  C4. The sector advance of a small write does the opposite of the wrap. With
  \<open>next_free\<close> in the last sector of the journal, where the advance reaches
  \<open>journal.len\<close>, the position is left at \<open>journal.len\<close>. With \<open>next_free = 1024\<close> in a
  journal of 1 MiB, where nothing reaches \<open>journal.len\<close>, the position jumps to 512: the
  sector is written at 1024, the payload at 512, and \<open>next_free\<close> ends at 1024, on the
  sector just written.
\<close>

theorem sector_advance_wrap_inverted:
  "j_next_free ex_journal_end + 512 \<ge> j_len ex_journal_end
   \<and> j_next_free (advance_sector ex_journal_end) = j_len ex_journal_end
   \<and> j_next_free (journal ex_store_mid) + 512 < j_len (journal ex_store_mid)
   \<and> j_next_free (advance_sector (journal ex_store_mid)) = 512
   \<and> (\<exists>bs' op'. dequeue_write ex_decls ex_store_mid ex_write_small = Inr (1, bs', op')
         \<and> sqes (ring bs') =
             [Some \<lparr>sq_opcode = Writev, sq_fd = 5,
                     sq_iov = \<lparr>iov_base = Sector_buf 512, iov_len = 512\<rparr>,
                     sq_off = 1024, sq_op = 11\<rparr>,
              Some \<lparr>sq_opcode = Writev, sq_fd = 5,
                     sq_iov = \<lparr>iov_base = Op_buf 0, iov_len = 512\<rparr>,
                     sq_off = 512, sq_op = 11\<rparr>]
         \<and> si_offset (j_sector_info (journal bs') 1) = 1024
         \<and> j_next_free (journal bs') = 1024)"
  by (simp add: ex_decls_def ex_ring_def ex_journal_def ex_store_def ex_oid0_def ex_oid1_def
      ex_other_def ex_write_small_def ex_dirty_writes_def ex_store_mid_def ex_journal_end_def
      write_defs)

end
